theory Spec2Isabelle
  imports Main
begin

section \<open>Strings as the matcher uses them\<close>

text \<open>
  Paths, header names and labels are JavaScript strings; they are modelled as \<open>string\<close>
  (a list of 8-bit characters). Header names, methods and the characters the path matcher
  treats specially are all ASCII, so nothing below depends on characters beyond that range.
\<close>

definition startsWith :: "string \<Rightarrow> string \<Rightarrow> bool" where
  "startsWith s p = (take (length p) s = p)"

definition endsWith :: "string \<Rightarrow> string \<Rightarrow> bool" where
  "endsWith s p = (length p \<le> length s \<and> drop (length s - length p) s = p)"

text \<open>\<open>String.prototype.toLowerCase\<close> on ASCII: only \<open>A\<close>..\<open>Z\<close> change.\<close>

definition lowerChar :: "char \<Rightarrow> char" where
  "lowerChar c =
     (let n = (of_char c :: nat) in if 65 \<le> n \<and> n \<le> 90 then char_of (n + 32) else c)"

definition toLowerCase :: "string \<Rightarrow> string" where
  "toLowerCase s = map lowerChar s"

text \<open>
  \<open>s.split('/')\<close>: the pieces between the slashes, empty pieces included, so a string
  with \<open>n\<close> slashes has \<open>n + 1\<close> pieces. \<open>filter(Boolean)\<close> then drops the empty
  pieces.
\<close>

fun splitSlash :: "string \<Rightarrow> string list" where
  "splitSlash [] = [[]]"
| "splitSlash (c # cs) =
     (if c = CHR ''/'' then [] # splitSlash cs
      else (case splitSlash cs of [] \<Rightarrow> [[c]] | seg # segs \<Rightarrow> (c # seg) # segs))"

definition filterBoolean :: "string list \<Rightarrow> string list" where
  "filterBoolean parts = filter (\<lambda>p. p \<noteq> []) parts"

section \<open>Path normalisation\<close>

text \<open>\<open>normalizePath\<close>: the empty path is \<open>/\<close>; otherwise a leading slash is ensured.\<close>

definition normalizePath :: "string \<Rightarrow> string" where
  "normalizePath p = (if p = [] then ''/'' else if startsWith p ''/'' then p else ''/'' @ p)"

text \<open>\<open>trimTrailingSlash\<close>: one trailing slash is removed, unless the path is one character.\<close>

definition trimTrailingSlash :: "string \<Rightarrow> string" where
  "trimTrailingSlash p = (if length p > 1 \<and> endsWith p ''/'' then butlast p else p)"

section \<open>The pattern regular expression\<close>

text \<open>
  \<open>matchesPath\<close> builds a regular expression from the pattern in three steps.
  First \<open>replace(/[-/\\^$*+?.()|[\]{}]/g, '\\$&')\<close> puts a backslash before each of the
  characters of that class.
\<close>

definition regexSpecial :: "char \<Rightarrow> bool" where
  "regexSpecial c = (c \<in> set ''-/^$*+?.()|[]{}'' \<or> c = CHR 0x5C)"

fun escapePattern :: "string \<Rightarrow> string" where
  "escapePattern [] = []"
| "escapePattern (c # cs) =
     (if regexSpecial c then CHR 0x5C # c # escapePattern cs else c # escapePattern cs)"

text \<open>
  Then \<open>replace(/:([A-Za-z0-9_-]+)/g, '([^/]+)')\<close> replaces, from left to right, each
  colon followed by a longest non-empty run of name characters by the text of a capture
  group. The result is the source text of the regular expression; \<open>Group\<close> stands for
  the inserted text \<open>([^/]+)\<close> and \<open>Chr c\<close> for a character kept from the escaped
  pattern.
\<close>

definition nameChar :: "char \<Rightarrow> bool" where
  "nameChar c =
     (let n = (of_char c :: nat) in
        (65 \<le> n \<and> n \<le> 90) \<or> (97 \<le> n \<and> n \<le> 122) \<or> (48 \<le> n \<and> n \<le> 57)
        \<or> c = CHR ''_'' \<or> c = CHR ''-'')"

datatype piece = Chr char | Group

function replaceParams :: "string \<Rightarrow> piece list" where
  "replaceParams [] = []"
| "replaceParams (c # cs) =
     (if c = CHR '':'' \<and> takeWhile nameChar cs \<noteq> []
      then Group # replaceParams (dropWhile nameChar cs)
      else Chr c # replaceParams cs)"
  by pat_completeness auto
termination
  by (relation "measure length") (auto simp: length_dropWhile_le le_imp_less_Suc)

text \<open>
  Last, \<open>new RegExp('^' + source + '$')\<close> reads the source: a backslash followed by
  one of the characters of the class above is that character taken literally, the group is one or more characters other
  than a slash, and any other character that is not regular expression syntax stands for
  itself. A source the constructor would refuse, or one outside this fragment, is
  \<open>None\<close>; \<open>compilePattern_atomsOf\<close> below shows that the first two steps never
  produce one.
\<close>

datatype atom = Lit char | Segment

fun parseRegex :: "piece list \<Rightarrow> atom list option" where
  "parseRegex [] = Some []"
| "parseRegex (Group # ps) = map_option ((#) Segment) (parseRegex ps)"
| "parseRegex (Chr c # ps) =
     (if c = CHR 0x5C then
        (case ps of
           Chr d # ps' \<Rightarrow>
             if regexSpecial d then map_option ((#) (Lit d)) (parseRegex ps') else None
         | _ \<Rightarrow> None)
      else if regexSpecial c then None
      else map_option ((#) (Lit c)) (parseRegex ps))"

definition compilePattern :: "string \<Rightarrow> atom list option" where
  "compilePattern patternPath = parseRegex (replaceParams (escapePattern patternPath))"

text \<open>
  \<open>regex.test\<close> with both anchors: the whole string must be consumed. The group is
  greedy in the engine, but with backtracking the outcome is that of trying every length.
\<close>

fun regexTest :: "atom list \<Rightarrow> string \<Rightarrow> bool" where
  "regexTest [] s = (s = [])"
| "regexTest (Lit c # as) [] = False"
| "regexTest (Lit c # as) (d # s) = (c = d \<and> regexTest as s)"
| "regexTest (Segment # as) [] = False"
| "regexTest (Segment # as) (d # s) =
     (d \<noteq> CHR ''/'' \<and> (regexTest as s \<or> regexTest (Segment # as) s))"

section \<open>Values, requests, configuration, definitions\<close>

text \<open>
  A resolved response is typed \<open>any\<close>. The values that matter to the response builder
  are modelled by \<open>jsvalue\<close>: a plain object is the list of its own enumerable
  properties in insertion order (keys distinct);
  \<open>JHostBody\<close> stands for a \<open>Blob\<close>, \<open>FormData\<close>, \<open>URLSearchParams\<close>,
  \<open>ReadableStream\<close>, \<open>ArrayBuffer\<close> or buffer view, which are objects with none of
  the properties \<open>data\<close>, \<open>status\<close>, \<open>headers\<close>.
\<close>

datatype jsvalue =
    JUndefined
  | JNull
  | JBool bool
  | JNumber int
  | JString string
  | JArray "jsvalue list"
  | JObject "(string \<times> jsvalue) list"
  | JHostBody string

text \<open>A thrown value: the constructor's name (the \<open>name\<close> of the error) and its message.\<close>

datatype exn =
    TypeError string
  | RangeError string
  | DOMException string string
  | Error string string
  | Thrown jsvalue

fun errorName :: "exn \<Rightarrow> string" where
  "errorName (TypeError msg) = ''TypeError''"
| "errorName (RangeError msg) = ''RangeError''"
| "errorName (DOMException msg name) = name"
| "errorName (Error name msg) = name"
| "errorName (Thrown v) = []"

fun errorMessage :: "exn \<Rightarrow> string" where
  "errorMessage (TypeError msg) = msg"
| "errorMessage (RangeError msg) = msg"
| "errorMessage (DOMException msg name) = msg"
| "errorMessage (Error name msg) = msg"
| "errorMessage (Thrown v) = []"

text \<open>
  The intercepted call after the platform has parsed it: \<open>reqMethod\<close> is
  \<open>(init?.method || 'GET').toUpperCase()\<close>; \<open>pathname\<close> and \<open>searchParams\<close> are
  those of \<open>new URL(url, base)\<close>, the search parameters in the order of the query string
  with repeated keys kept; \<open>reqHeaders\<close> are the pairs \<open>request.headers.forEach\<close>
  visits; \<open>bodyText\<close> is the outcome of \<open>request.clone().text()\<close>, which either of the
  two calls can fail.
\<close>

record request =
  reqMethod :: string
  pathname :: string
  searchParams :: "(string \<times> string) list"
  reqHeaders :: "(string \<times> string) list"
  bodyText :: "exn + string"

text \<open>
  \<open>MockConfig\<close>. \<open>basePathname\<close> is the \<open>pathname\<close> of the parsed \<open>baseUrl\<close>,
  which \<open>getBasePath\<close> reads through \<open>new URL\<close>.
\<close>

record config =
  baseUrl :: string
  basePathname :: string
  globalDelay :: "nat option"
  globalHeaders :: "(string \<times> string) list option"
  logRequests :: "bool option"
  defaultPriority :: "int option"

text \<open>
  What \<open>normalizeResponse\<close> returns: the body, the status and the headers that
  \<open>createMockResponse\<close> hands to the \<open>Response\<close> constructor.
\<close>

datatype body = NoBody | BodyInit jsvalue | JSONstringify jsvalue

record response =
  respBody :: body
  respStatus :: jsvalue
  respHeaders :: "(string \<times> jsvalue) list"

text \<open>
  A transport \<open>Response\<close> object: its body, its status (a number) and the entries its
  headers were filled from.
\<close>

record builtResponse =
  builtBody :: body
  builtStatus :: nat
  builtHeaders :: "(string \<times> jsvalue) list"

datatype resolved = NativeResponse builtResponse | Value jsvalue

type_synonym store = "(string \<times> jsvalue) list"

record requestContext =
  params :: "(string \<times> string) list"
  ctxBody :: jsvalue
  ctxQueryParams :: "(string \<times> string) list"
  ctxHeaders :: "(string \<times> string) list"
  ctxRequest :: request
  ctxState :: store

text \<open>
  The response source of a definition: the \<open>response\<close> of a \<open>MockEndpoint\<close> (a value
  or promise, or a function of no argument) or the \<open>handler\<close> of a \<open>DynamicEndpoint\<close>.
  Each can fail (a rejected promise, a throw). A handler gets the state by reference, so
  it returns the state it leaves behind.
\<close>

datatype responseSource =
    Response "exn + resolved"
  | ResponseFn "unit \<Rightarrow> exn + resolved"
  | Handler "requestContext \<Rightarrow> (exn + resolved) \<times> store"

text \<open>
  \<open>MockEndpoint | DynamicEndpoint\<close>; \<open>httpMethod\<close> is the field \<open>method\<close>. The predicate \<open>match\<close> returns the truthiness of
  what the JavaScript function returns, or what it throws.
\<close>

record endpoint =
  path :: string
  httpMethod :: string
  source :: responseSource
  status :: "int option"
  delay :: "nat option"
  headers :: "(string \<times> string) list option"
  priority :: "int option"
  queryParams :: "(string \<times> string) list option"
  requestHeaders :: "(string \<times> string) list option"
  match :: "(request \<Rightarrow> exn + bool) option"
  networkError :: "string option"

text \<open>
  The \<open>ApiMocker\<close> instance. \<open>endpoints\<close> is a \<open>Map\<close>: its entries in insertion
  order of the keys.
\<close>

record mocker =
  endpoints :: "(string \<times> endpoint list) list"
  mconfig :: config
  isEnabled :: bool
  state :: store

text \<open>
  What the platform supplies: \<open>JSON.parse\<close> (a value, or the \<open>SyntaxError\<close> it throws),
  whether \<open>DOMException\<close> is defined, and for the \<open>Response\<close> constructor: the integer
  that \<open>ToNumber\<close> makes of a value that is not a number, boolean, \<open>null\<close> or
  \<open>undefined\<close>, the \<open>TypeError\<close> (if any) with which filling the headers refuses an
  invalid name or value, and the messages of its two other errors.
\<close>

record platform =
  jsonParse :: "string \<Rightarrow> exn + jsvalue"
  hasDOMException :: bool
  toIntegerOther :: "jsvalue \<Rightarrow> int"
  headersInitError :: "(string \<times> jsvalue) list \<Rightarrow> exn option"
  statusRangeMessage :: string
  nullBodyStatusMessage :: string

section \<open>Objects and maps\<close>

text \<open>
  \<open>Map.prototype.set\<close>, and \<open>obj[key] = value\<close> for an ordinary key: an existing key
  keeps its place and gets the new value, a new key goes to the end.
\<close>

fun assign :: "('k \<times> 'v) list \<Rightarrow> 'k \<Rightarrow> 'v \<Rightarrow> ('k \<times> 'v) list" where
  "assign [] k v = [(k, v)]"
| "assign ((k', v') # kvs) k v = (if k' = k then (k, v) # kvs else (k', v') # assign kvs k v)"

text \<open>\<open>obj[key]\<close>, \<open>Map.prototype.get\<close> and \<open>URLSearchParams.prototype.get\<close>: the first entry
  with the key.\<close>

fun lookup :: "('k \<times> 'v) list \<Rightarrow> 'k \<Rightarrow> 'v option" where
  "lookup [] k = None"
| "lookup ((k', v') # kvs) k = (if k' = k then Some v' else lookup kvs k)"

text \<open>
  \<open>obj[key] = value\<close> on a plain object. The key \<open>__proto__\<close> is an accessor inherited
  from \<open>Object.prototype\<close>: unless the object has an own property of that name, the
  assignment creates no property (it replaces the prototype when the value is an object or
  \<open>null\<close>, and does nothing otherwise).
\<close>

definition assignProp :: "(string \<times> 'v) list \<Rightarrow> string \<Rightarrow> 'v \<Rightarrow> (string \<times> 'v) list" where
  "assignProp ps k v = (if k = ''__proto__'' \<and> lookup ps k = None then ps else assign ps k v)"

definition mapDelete :: "('k \<times> 'v) list \<Rightarrow> 'k \<Rightarrow> ('k \<times> 'v) list" where
  "mapDelete kvs k = filter (\<lambda>kv. fst kv \<noteq> k) kvs"

fun truthy :: "jsvalue \<Rightarrow> bool" where
  "truthy JUndefined = False"
| "truthy JNull = False"
| "truthy (JBool b) = b"
| "truthy (JNumber n) = (n \<noteq> 0)"
| "truthy (JString s) = (s \<noteq> [])"
| "truthy (JArray xs) = True"
| "truthy (JObject fs) = True"
| "truthy (JHostBody h) = True"

text \<open>\<open>typeof value === 'object'\<close> (which \<open>null\<close> satisfies too).\<close>

fun typeofObject :: "jsvalue \<Rightarrow> bool" where
  "typeofObject JNull = True"
| "typeofObject (JArray xs) = True"
| "typeofObject (JObject fs) = True"
| "typeofObject (JHostBody h) = True"
| "typeofObject v = False"

text \<open>
  \<open>key in value\<close> and \<open>value[key]\<close>, for the keys \<open>data\<close>, \<open>status\<close> and \<open>headers\<close>,
  which only a plain object can have.
\<close>

fun hasProperty :: "string \<Rightarrow> jsvalue \<Rightarrow> bool" where
  "hasProperty key (JObject fs) = (lookup fs key \<noteq> None)"
| "hasProperty key v = False"

fun getProperty :: "jsvalue \<Rightarrow> string \<Rightarrow> jsvalue" where
  "getProperty (JObject fs) key = (case lookup fs key of Some v \<Rightarrow> v | None \<Rightarrow> JUndefined)"
| "getProperty v key = JUndefined"

text \<open>\<open>String(index)\<close> for an array index.\<close>

fun decimal :: "nat \<Rightarrow> string" where
  "decimal n =
     (if n < 10 then [char_of (48 + n)] else decimal (n div 10) @ [char_of (48 + n mod 10)])"

text \<open>\<open>Object.entries\<close>: the own properties of an object, the indexed elements of an array
  or of a string, nothing for the other values.\<close>

fun objectEntries :: "jsvalue \<Rightarrow> (string \<times> jsvalue) list" where
  "objectEntries (JObject fs) = fs"
| "objectEntries (JArray xs) = zip (map decimal [0..<length xs]) xs"
| "objectEntries (JString s) = zip (map decimal [0..<length s]) (map (\<lambda>c. JString [c]) s)"
| "objectEntries v = []"

section \<open>Registry\<close>

definition createEndpointKey :: "string \<Rightarrow> string \<Rightarrow> string" where
  "createEndpointKey m p = m @ '':'' @ p"

text \<open>
  \<open>Array.prototype.sort\<close> with a comparator: the sort is stable, and for a comparator
  that is a total preorder the result is the one insertion produces.
\<close>

fun insertBy :: "('a \<Rightarrow> 'a \<Rightarrow> int) \<Rightarrow> 'a \<Rightarrow> 'a list \<Rightarrow> 'a list" where
  "insertBy cmp x [] = [x]"
| "insertBy cmp x (y # ys) = (if cmp x y \<le> 0 then x # y # ys else y # insertBy cmp x ys)"

fun sortBy :: "('a \<Rightarrow> 'a \<Rightarrow> int) \<Rightarrow> 'a list \<Rightarrow> 'a list" where
  "sortBy cmp [] = []"
| "sortBy cmp (x # xs) = insertBy cmp x (sortBy cmp xs)"

definition priorityOrZero :: "endpoint \<Rightarrow> int" where
  "priorityOrZero e = (case priority e of Some p \<Rightarrow> p | None \<Rightarrow> 0)"

definition sortEndpointsByPriority ::
  "(string \<times> endpoint list) list \<Rightarrow> string \<Rightarrow> (string \<times> endpoint list) list" where
  "sortEndpointsByPriority eps key =
     (case lookup eps key of
        None \<Rightarrow> eps
      | Some es \<Rightarrow>
          if length es > 1
          then assign eps key (sortBy (\<lambda>a b. priorityOrZero b - priorityOrZero a) es)
          else eps)"

text \<open>\<open>mock\<close> and \<open>mockDynamic\<close> (the two differ in the log line only).\<close>

definition mock :: "mocker \<Rightarrow> endpoint \<Rightarrow> mocker" where
  "mock m e =
     (let key = createEndpointKey (httpMethod e) (path e);
          endpointWithPriority = e\<lparr>priority := Some
            (case priority e of
               Some p \<Rightarrow> p
             | None \<Rightarrow> (case defaultPriority (mconfig m) of Some d \<Rightarrow> d | None \<Rightarrow> 0))\<rparr>;
          eps1 = (if lookup (endpoints m) key = None then assign (endpoints m) key []
                  else endpoints m);
          eps2 = (case lookup eps1 key of
                    Some es \<Rightarrow> assign eps1 key (es @ [endpointWithPriority])
                  | None \<Rightarrow> eps1)
      in m\<lparr>endpoints := sortEndpointsByPriority eps2 key\<rparr>)"

definition clear :: "mocker \<Rightarrow> mocker" where
  "clear m = m\<lparr>endpoints := [], state := []\<rparr>"

definition remove :: "mocker \<Rightarrow> string \<Rightarrow> string \<Rightarrow> mocker" where
  "remove m mth p = m\<lparr>endpoints := mapDelete (endpoints m) (createEndpointKey mth p)\<rparr>"

definition setState :: "mocker \<Rightarrow> string \<Rightarrow> jsvalue \<Rightarrow> mocker" where
  "setState m key v = m\<lparr>state := assignProp (state m) key v\<rparr>"

definition getState :: "mocker \<Rightarrow> store" where
  "getState m = state m"

definition enable :: "mocker \<Rightarrow> mocker" where
  "enable m = m\<lparr>isEnabled := True\<rparr>"

definition disable :: "mocker \<Rightarrow> mocker" where
  "disable m = m\<lparr>isEnabled := False\<rparr>"

section \<open>Request matching\<close>

definition getBasePath :: "config \<Rightarrow> string" where
  "getBasePath cfg =
     (if baseUrl cfg = [] then []
      else if basePathname cfg = ''/'' then []
      else normalizePath (basePathname cfg))"

definition getPathWithoutBase :: "config \<Rightarrow> request \<Rightarrow> string" where
  "getPathWithoutBase cfg req =
     (let requestPath = normalizePath (pathname req);
          basePath = getBasePath cfg
      in if basePath \<noteq> [] \<and> startsWith requestPath basePath
         then normalizePath (drop (length basePath) requestPath)
         else requestPath)"

definition matchesPath :: "config \<Rightarrow> string \<Rightarrow> request \<Rightarrow> exn + bool" where
  "matchesPath cfg pattern req =
     (let patternPath = trimTrailingSlash (normalizePath pattern);
          requestPath = trimTrailingSlash (getPathWithoutBase cfg req)
      in case compilePattern patternPath of
           None \<Rightarrow> Inl (Error ''SyntaxError'' ''Invalid regular expression'')
         | Some regex \<Rightarrow> Inr (regexTest regex requestPath))"

fun matchesQueryParams :: "(string \<times> string) list \<Rightarrow> request \<Rightarrow> bool" where
  "matchesQueryParams [] req = True"
| "matchesQueryParams ((key, expectedValue) # rest) req =
     (if lookup (searchParams req) key \<noteq> Some expectedValue then False
      else matchesQueryParams rest req)"

text \<open>
  \<open>extractHeaders\<close> fills a plain object; header names are taken to be ordinary property
  names (not \<open>__proto__\<close>).
\<close>

definition extractHeaders :: "request \<Rightarrow> (string \<times> string) list" where
  "extractHeaders req = fold (\<lambda>(key, v) hs. assign hs (toLowerCase key) v) (reqHeaders req) []"

fun headersAgree :: "(string \<times> string) list \<Rightarrow> (string \<times> string) list \<Rightarrow> bool" where
  "headersAgree [] extracted = True"
| "headersAgree ((key, expectedValue) # rest) extracted =
     (if lookup extracted (toLowerCase key) \<noteq> Some expectedValue then False
      else headersAgree rest extracted)"

definition matchesHeaders :: "(string \<times> string) list \<Rightarrow> request \<Rightarrow> bool" where
  "matchesHeaders expectedHeaders req = headersAgree expectedHeaders (extractHeaders req)"

text \<open>
  \<open>matchesEndpoint\<close>, check by check in the order of the source. The predicate and the
  regular expression constructor are the calls that can throw; nothing catches.
\<close>

definition matchesEndpoint :: "config \<Rightarrow> endpoint \<Rightarrow> string \<Rightarrow> request \<Rightarrow> exn + bool" where
  "matchesEndpoint cfg e mth req =
     (if httpMethod e \<noteq> mth then Inr False
      else case (case match e of None \<Rightarrow> Inr True | Some predicate \<Rightarrow> predicate req) of
        Inl x \<Rightarrow> Inl x
      | Inr False \<Rightarrow> Inr False
      | Inr True \<Rightarrow>
         (case matchesPath cfg (path e) req of
            Inl x \<Rightarrow> Inl x
          | Inr False \<Rightarrow> Inr False
          | Inr True \<Rightarrow>
             if (case queryParams e of None \<Rightarrow> False | Some q \<Rightarrow> \<not> matchesQueryParams q req)
             then Inr False
             else if (case requestHeaders e of None \<Rightarrow> False | Some h \<Rightarrow> \<not> matchesHeaders h req)
             then Inr False
             else Inr True))"

section \<open>Ranking\<close>

definition calculateSpecificity :: "string \<Rightarrow> int" where
  "calculateSpecificity p =
     fold (\<lambda>segment specificity.
             if startsWith segment '':'' then specificity + 1 else specificity + 10)
          (filterBoolean (splitSlash (trimTrailingSlash (normalizePath p)))) 0"

text \<open>The two loops of \<open>findMatchingEndpoint\<close> that fill \<open>candidates\<close>.\<close>

fun scanList ::
  "config \<Rightarrow> string \<Rightarrow> request \<Rightarrow> endpoint list \<Rightarrow> (endpoint \<times> int) list
   \<Rightarrow> exn + (endpoint \<times> int) list" where
  "scanList cfg mth req [] candidates = Inr candidates"
| "scanList cfg mth req (e # es) candidates =
     (case matchesEndpoint cfg e mth req of
        Inl x \<Rightarrow> Inl x
      | Inr True \<Rightarrow>
          scanList cfg mth req es (candidates @ [(e, calculateSpecificity (path e))])
      | Inr False \<Rightarrow> scanList cfg mth req es candidates)"

fun scanRegistry ::
  "config \<Rightarrow> string \<Rightarrow> request \<Rightarrow> (string \<times> endpoint list) list \<Rightarrow> (endpoint \<times> int) list
   \<Rightarrow> exn + (endpoint \<times> int) list" where
  "scanRegistry cfg mth req [] candidates = Inr candidates"
| "scanRegistry cfg mth req ((key, endpointList) # rest) candidates =
     (case scanList cfg mth req endpointList candidates of
        Inl x \<Rightarrow> Inl x
      | Inr candidates' \<Rightarrow> scanRegistry cfg mth req rest candidates')"

definition compareCandidates :: "endpoint \<times> int \<Rightarrow> endpoint \<times> int \<Rightarrow> int" where
  "compareCandidates a b =
     (let priorityA = priorityOrZero (fst a); priorityB = priorityOrZero (fst b)
      in if priorityA \<noteq> priorityB then priorityB - priorityA else snd b - snd a)"

definition findMatchingEndpoint ::
  "config \<Rightarrow> (string \<times> endpoint list) list \<Rightarrow> string \<Rightarrow> request \<Rightarrow> exn + endpoint option" where
  "findMatchingEndpoint cfg eps mth req =
     (case scanRegistry cfg mth req eps [] of
        Inl x \<Rightarrow> Inl x
      | Inr candidates \<Rightarrow>
          (case sortBy compareCandidates candidates of
             [] \<Rightarrow> Inr None
           | c # cs \<Rightarrow> Inr (Some (fst c))))"

section \<open>Request context\<close>

text \<open>The \<open>forEach\<close> of \<open>extractParams\<close>, with its index.\<close>

fun bindParams ::
  "string list \<Rightarrow> nat \<Rightarrow> string list \<Rightarrow> (string \<times> string) list \<Rightarrow> (string \<times> string) list" where
  "bindParams [] index urlParts ps = ps"
| "bindParams (part # rest) index urlParts ps =
     bindParams rest (Suc index) urlParts
       (if startsWith part '':'' \<and> index < length urlParts \<and> urlParts ! index \<noteq> []
        then assignProp ps (drop 1 part) (urlParts ! index)
        else ps)"

definition extractParams :: "config \<Rightarrow> string \<Rightarrow> request \<Rightarrow> (string \<times> string) list" where
  "extractParams cfg pattern req =
     (let normalizedPattern = trimTrailingSlash (normalizePath pattern);
          requestPath = trimTrailingSlash (getPathWithoutBase cfg req);
          patternParts = filterBoolean (splitSlash normalizedPattern);
          urlParts = filterBoolean (splitSlash requestPath)
      in bindParams patternParts 0 urlParts [])"

definition extractQueryParams :: "request \<Rightarrow> (string \<times> string) list" where
  "extractQueryParams req = fold (\<lambda>(key, v) ps. assignProp ps key v) (searchParams req) []"

text \<open>
  \<open>parseRequestBody\<close>: the outer \<open>try\<close> covers cloning and reading, the inner one
  \<open>JSON.parse\<close>.
\<close>

definition tryCatch :: "exn + 'a \<Rightarrow> (exn \<Rightarrow> exn + 'a) \<Rightarrow> exn + 'a" where
  "tryCatch block handler = (case block of Inl x \<Rightarrow> handler x | Inr v \<Rightarrow> Inr v)"

definition parseRequestBody :: "platform \<Rightarrow> request \<Rightarrow> exn + jsvalue" where
  "parseRequestBody pf req =
     tryCatch
       (case bodyText req of
          Inl x \<Rightarrow> Inl x
        | Inr text \<Rightarrow>
            if text = [] then Inr JUndefined
            else tryCatch (jsonParse pf text) (\<lambda>x. Inr (JString text)))
       (\<lambda>x. Inr JUndefined)"

definition buildRequestContext ::
  "platform \<Rightarrow> config \<Rightarrow> store \<Rightarrow> string \<Rightarrow> request \<Rightarrow> exn + requestContext" where
  "buildRequestContext pf cfg st pattern req =
     (case parseRequestBody pf req of
        Inl x \<Rightarrow> Inl x
      | Inr b \<Rightarrow> Inr \<lparr>params = extractParams cfg pattern req, ctxBody = b,
                     ctxQueryParams = extractQueryParams req, ctxHeaders = extractHeaders req,
                     ctxRequest = req, ctxState = st\<rparr>)"

section \<open>Response resolution and building\<close>

definition resolveEndpointResponse ::
  "platform \<Rightarrow> config \<Rightarrow> store \<Rightarrow> endpoint \<Rightarrow> request \<Rightarrow> (exn + resolved) \<times> store" where
  "resolveEndpointResponse pf cfg st e req =
     (case source e of
        Handler handler \<Rightarrow>
          (case buildRequestContext pf cfg st (path e) req of
             Inl x \<Rightarrow> (Inl x, st)
           | Inr context \<Rightarrow> handler context)
      | ResponseFn f \<Rightarrow> (f (), st)
      | Response r \<Rightarrow> (r, st))"

definition isMockResponse :: "jsvalue \<Rightarrow> bool" where
  "isMockResponse v =
     (v \<noteq> JNull \<and> typeofObject v \<and> hasProperty ''data'' v
      \<and> (hasProperty ''status'' v \<or> hasProperty ''headers'' v))"

fun isBodyInit :: "jsvalue \<Rightarrow> bool" where
  "isBodyInit (JString s) = True"
| "isBodyInit JNull = True"
| "isBodyInit (JHostBody h) = True"
| "isBodyInit v = False"

definition serializeBody :: "jsvalue \<Rightarrow> body" where
  "serializeBody v =
     (if v = JUndefined \<or> v = JNull then NoBody
      else if isBodyInit v then BodyInit v
      else JSONstringify v)"

text \<open>
  \<open>mergeHeaders\<close>: a copy of the global headers, then each group that is not falsy
  (\<open>None\<close> here) assigned entry by entry.
\<close>

definition stringEntries :: "(string \<times> string) list \<Rightarrow> (string \<times> jsvalue) list" where
  "stringEntries hs = map (\<lambda>(k, v). (k, JString v)) hs"

definition mergeHeaders ::
  "config \<Rightarrow> (string \<times> jsvalue) list option list \<Rightarrow> (string \<times> jsvalue) list" where
  "mergeHeaders cfg headerGroups =
     fold (\<lambda>group hs.
             case group of
               None \<Rightarrow> hs
             | Some entries \<Rightarrow> fold (\<lambda>(key, v) hs'. assignProp hs' key v) entries hs)
          headerGroups
          (stringEntries (case globalHeaders cfg of Some g \<Rightarrow> g | None \<Rightarrow> []))"

text \<open>A header group taken from a value: falsy values are skipped by \<open>mergeHeaders\<close>.\<close>

definition headerGroup :: "jsvalue \<Rightarrow> (string \<times> jsvalue) list option" where
  "headerGroup v = (if truthy v then Some (objectEntries v) else None)"

definition nullish :: "jsvalue \<Rightarrow> bool" where
  "nullish v = (v = JUndefined \<or> v = JNull)"

definition normalizeResponse :: "config \<Rightarrow> endpoint \<Rightarrow> jsvalue \<Rightarrow> response" where
  "normalizeResponse cfg e responseValue =
     (if isMockResponse responseValue then
        \<lparr>respBody = serializeBody (getProperty responseValue ''data''),
         respStatus =
           (if \<not> nullish (getProperty responseValue ''status'')
            then getProperty responseValue ''status''
            else JNumber (case status e of Some n \<Rightarrow> n | None \<Rightarrow> 200)),
         respHeaders =
           mergeHeaders cfg [map_option stringEntries (headers e),
                             headerGroup (getProperty responseValue ''headers'')]\<rparr>
      else
        \<lparr>respBody = serializeBody responseValue,
         respStatus = JNumber (case status e of Some n \<Rightarrow> n | None \<Rightarrow> 200),
         respHeaders = mergeHeaders cfg [map_option stringEntries (headers e)]\<rparr>)"

text \<open>\<open>simulateNetworkError\<close> has the return type of a response and throws on every path.\<close>

definition simulateNetworkError :: "platform \<Rightarrow> string \<Rightarrow> exn + builtResponse" where
  "simulateNetworkError pf errorType =
     (if errorType = ''timeout'' then Inl (TypeError ''Network request failed: timeout'')
      else if errorType = ''connection_refused''
      then Inl (TypeError ''Network request failed: connection refused'')
      else if errorType = ''abort'' then
        (if hasDOMException pf then Inl (DOMException ''The operation was aborted'' ''AbortError'')
         else Inl (Error ''AbortError'' ''The operation was aborted''))
      else Inl (TypeError ''Network request failed''))"

text \<open>
  \<open>new Response(body, { status, headers })\<close>, after the Fetch standard. A status that
  is \<open>undefined\<close> counts as not given and is 200; any other is converted to an unsigned
  16-bit integer (a number is taken modulo 65536). A status outside 200 to 599 is a
  \<open>RangeError\<close>. The headers are filled next, which can throw.
  A body together with a null-body status (of those in range: 204, 205, 304) is a
  \<open>TypeError\<close>.
\<close>

fun toUnsignedShort :: "platform \<Rightarrow> jsvalue \<Rightarrow> nat" where
  "toUnsignedShort pf (JNumber n) = nat (n mod 65536)"
| "toUnsignedShort pf JUndefined = 0"
| "toUnsignedShort pf JNull = 0"
| "toUnsignedShort pf (JBool b) = (if b then 1 else 0)"
| "toUnsignedShort pf v = nat (toIntegerOther pf v mod 65536)"

definition newResponse ::
  "platform \<Rightarrow> body \<Rightarrow> jsvalue \<Rightarrow> (string \<times> jsvalue) list \<Rightarrow> exn + builtResponse" where
  "newResponse pf b st hs =
     (let n = (if st = JUndefined then 200 else toUnsignedShort pf st) in
      if n < 200 \<or> 599 < n then Inl (RangeError (statusRangeMessage pf))
      else case headersInitError pf hs of
        Some x \<Rightarrow> Inl x
      | None \<Rightarrow>
          if b \<noteq> NoBody \<and> (n = 204 \<or> n = 205 \<or> n = 304)
          then Inl (TypeError (nullBodyStatusMessage pf))
          else Inr \<lparr>builtBody = b, builtStatus = n, builtHeaders = hs\<rparr>)"

text \<open>
  \<open>createMockResponse\<close>. The delay suspends the call and then lets it go on, so it does
  not show in the result. The guard \<open>if (endpoint.networkError)\<close> is a truthiness test
  (\<open>whenTruthy\<close>): an absent label and the empty string both go on to the response.
\<close>

definition whenTruthy :: "string option \<Rightarrow> string option" where
  "whenTruthy label = (case label of Some l \<Rightarrow> if l \<noteq> [] then Some l else None | None \<Rightarrow> None)"

definition createMockResponse ::
  "platform \<Rightarrow> config \<Rightarrow> store \<Rightarrow> endpoint \<Rightarrow> request \<Rightarrow> (exn + builtResponse) \<times> store" where
  "createMockResponse pf cfg st e req =
     (case whenTruthy (networkError e) of
        Some errorType \<Rightarrow> (simulateNetworkError pf errorType, st)
      | None \<Rightarrow>
          (case resolveEndpointResponse pf cfg st e req of
             (Inl x, st') \<Rightarrow> (Inl x, st')
           | (Inr (NativeResponse r), st') \<Rightarrow> (Inr r, st')
           | (Inr (Value v), st') \<Rightarrow>
               (newResponse pf (respBody (normalizeResponse cfg e v))
                  (respStatus (normalizeResponse cfg e v))
                  (respHeaders (normalizeResponse cfg e v)), st')))"

section \<open>Interception\<close>

text \<open>
  What the intercepting function does with a call: hands it to the saved transport,
  resolves with a mock response, or rejects.
\<close>

datatype outcome = PassedThrough request | Resolved builtResponse | Rejected exn

definition intercept :: "platform \<Rightarrow> mocker \<Rightarrow> request \<Rightarrow> outcome \<times> mocker" where
  "intercept pf m req =
     (if \<not> isEnabled m then (PassedThrough req, m)
      else case findMatchingEndpoint (mconfig m) (endpoints m) (reqMethod req) req of
        Inl x \<Rightarrow> (Rejected x, m)
      | Inr None \<Rightarrow> (PassedThrough req, m)
      | Inr (Some mockEndpoint) \<Rightarrow>
          (case createMockResponse pf (mconfig m) (state m) mockEndpoint req of
             (Inl x, st) \<Rightarrow> (Rejected x, m\<lparr>state := st\<rparr>)
           | (Inr r, st) \<Rightarrow> (Resolved r, m\<lparr>state := st\<rparr>)))"

section \<open>The compiled pattern, directly\<close>

text \<open>
  Every hyphen is escaped before the parameter tokens are replaced, so a backslash stands
  between a hyphen and what precedes it, and the hyphen of the class \<open>[A-Za-z0-9_-]\<close>
  never takes part in a token. \<open>atomsOf\<close> reads the atoms off the pattern in one pass,
  with letters, digits and the underscore as the name characters;
  \<open>compilePattern_atomsOf\<close> shows that the three steps of \<open>matchesPath\<close> compute it.
\<close>

definition plainNameChar :: "char \<Rightarrow> bool" where
  "plainNameChar c = (nameChar c \<and> c \<noteq> CHR ''-'')"

function atomsOf :: "string \<Rightarrow> atom list" where
  "atomsOf [] = []"
| "atomsOf (c # cs) =
     (if c = CHR '':'' \<and> takeWhile plainNameChar cs \<noteq> []
      then Segment # atomsOf (dropWhile plainNameChar cs)
      else Lit c # atomsOf cs)"
  by pat_completeness auto
termination
  by (relation "measure length") (auto simp: length_dropWhile_le le_imp_less_Suc)

section \<open>Ranks and segment patterns\<close>

text \<open>
  The order the ranker sorts by, on definitions: a higher priority, or the same priority
  and a higher specificity.
\<close>

definition outranks :: "endpoint \<Rightarrow> endpoint \<Rightarrow> bool" where
  "outranks a b =
     (priorityOrZero a > priorityOrZero b
      \<or> (priorityOrZero a = priorityOrZero b
          \<and> calculateSpecificity (path a) > calculateSpecificity (path b)))"

text \<open>
  Patterns written segment by segment. \<open>joinPath\<close> puts a slash before each segment; a
  literal segment has no colon, a parameter segment is a colon followed by a name of
  letters, digits and underscores. A parameter segment stands for any non-empty request
  segment, a literal segment for itself.
\<close>

definition joinPath :: "string list \<Rightarrow> string" where
  "joinPath segs = concat (map (\<lambda>s. CHR ''/'' # s) segs)"

definition literalSegment :: "string \<Rightarrow> bool" where
  "literalSegment s = (s \<noteq> [] \<and> CHR ''/'' \<notin> set s \<and> CHR '':'' \<notin> set s)"

definition paramSegment :: "string \<Rightarrow> bool" where
  "paramSegment s =
     (case s of [] \<Rightarrow> False | c # name \<Rightarrow> c = CHR '':'' \<and> name \<noteq> [] \<and> list_all plainNameChar name)"

definition segmentMatches :: "string \<Rightarrow> string \<Rightarrow> bool" where
  "segmentMatches ps rs = (if paramSegment ps then rs \<noteq> [] \<and> CHR ''/'' \<notin> set rs else rs = ps)"

section \<open>Sample inputs\<close>

text \<open>The configuration \<open>createConfig\<close> builds from \<open>{}\<close>, and a mocker just constructed.\<close>

definition defaultConfig :: config where
  "defaultConfig =
     \<lparr>baseUrl = [], basePathname = ''/'', globalDelay = Some 0,
      globalHeaders = Some [(''Content-Type'', ''application/json'')],
      logRequests = Some True, defaultPriority = Some 0\<rparr>"

definition newMocker :: mocker where
  "newMocker = \<lparr>endpoints = [], mconfig = defaultConfig, isEnabled = True, state = []\<rparr>"

definition getRequest :: "string \<Rightarrow> (string \<times> string) list \<Rightarrow> request" where
  "getRequest p query =
     \<lparr>reqMethod = ''GET'', pathname = p, searchParams = query, reqHeaders = [],
      bodyText = Inr []\<rparr>"

definition postRequest :: "string \<Rightarrow> string \<Rightarrow> request" where
  "postRequest p text =
     \<lparr>reqMethod = ''POST'', pathname = p, searchParams = [],
      reqHeaders = [(''content-type'', ''text/plain;charset=UTF-8'')], bodyText = Inr text\<rparr>"

text \<open>
  A platform whose \<open>JSON.parse\<close> knows the two texts used below and whose header check
  accepts the headers used below.
\<close>

definition samplePlatform :: platform where
  "samplePlatform =
     \<lparr>jsonParse = (\<lambda>text.
         if text = ''{\"title\":\"First todo\"}''
         then Inr (JObject [(''title'', JString ''First todo'')])
         else if text = ''null'' then Inr JNull
         else Inl (Error ''SyntaxError'' ''Unexpected token'')),
      hasDOMException = True,
      toIntegerOther = (\<lambda>v. 0),
      headersInitError = (\<lambda>hs. None),
      statusRangeMessage = ''init[\"status\"] must be in the range of 200 to 599, inclusive.'',
      nullBodyStatusMessage = ''Invalid response status code''\<rparr>"

definition staticEndpoint :: "string \<Rightarrow> string \<Rightarrow> jsvalue \<Rightarrow> endpoint" where
  "staticEndpoint mth p v =
     \<lparr>path = p, httpMethod = mth, source = Response (Inr (Value v)), status = None, delay = None,
      headers = None, priority = None, queryParams = None, requestHeaders = None,
      match = None, networkError = None\<rparr>"


definition timeoutEndpoint :: endpoint where
  "timeoutEndpoint = (staticEndpoint ''GET'' ''/timeout'' (JObject []))\<lparr>networkError := Some ''timeout''\<rparr>"




definition throwingEndpoint :: endpoint where
  "throwingEndpoint =
     (staticEndpoint ''GET'' ''/users/:id'' (JString ''guarded''))
       \<lparr>match := Some (\<lambda>req. Inl (Error ''Error'' ''predicate failed''))\<rparr>"

definition guardedMocker :: mocker where
  "guardedMocker =
     mock (mock (mock newMocker (staticEndpoint ''GET'' ''/users/me'' (JString ''me'')))
                throwingEndpoint)
          (staticEndpoint ''GET'' ''/users/:name'' (JString ''named''))"

definition lowEndpoint :: endpoint where
  "lowEndpoint = (staticEndpoint ''GET'' ''/users/:id'' (JString ''low''))\<lparr>priority := Some 0\<rparr>"

definition firstTied :: endpoint where
  "firstTied = (staticEndpoint ''GET'' ''/users/:name'' (JString ''first''))\<lparr>priority := Some 5\<rparr>"

definition secondTied :: endpoint where
  "secondTied = (staticEndpoint ''GET'' ''/users/:id'' (JString ''second''))\<lparr>priority := Some 5\<rparr>"

text \<open>Two definitions without a priority of their own.\<close>

definition idEndpoint :: endpoint where
  "idEndpoint = staticEndpoint ''GET'' ''/users/:id'' (JString ''dynamic'')"

definition meEndpoint :: endpoint where
  "meEndpoint = staticEndpoint ''GET'' ''/users/me'' (JString ''static'')"

section \<open>Objects and maps: lemmas\<close>

lemma lookup_assign: "lookup (assign ps k v) k' = (if k' = k then Some v else lookup ps k')"
  by (induction ps k v rule: assign.induct) auto

lemma lookup_append:
  "lookup (xs @ ys) k = (case lookup xs k of Some v \<Rightarrow> Some v | None \<Rightarrow> lookup ys k)"
  by (induction xs) auto


lemma lookup_assignProp:
  "lookup (assignProp ps k v) k' =
     (if k = ''__proto__'' \<and> lookup ps k = None then lookup ps k'
      else if k' = k then Some v else lookup ps k')"
  by (auto simp: assignProp_def lookup_assign)

text \<open>
  The same on a plain object: the last entry stays, except that the key \<open>__proto__\<close> is
  kept only by an object that had it as an own property from the start.
\<close>

lemma lookup_fold_assignProp:
  "lookup (fold (\<lambda>(key, v) ps. assignProp ps key v) xs acc) k =
     (if k = ''__proto__'' \<and> lookup acc k = None then None
      else case lookup (rev xs) k of Some v \<Rightarrow> Some v | None \<Rightarrow> lookup acc k)"
proof (induction xs arbitrary: acc)
  case Nil
  show ?case by auto
next
  case (Cons x xs)
  obtain key v where x: "x = (key, v)" by (cases x)
  show ?case
    by (auto simp: x Cons.IH lookup_append lookup_assignProp split: option.splits)
qed



lemma lookup_eq_None_iff: "lookup ps k = None \<longleftrightarrow> k \<notin> fst ` set ps"
  by (induction ps) (auto split: if_splits)

section \<open>The pattern regular expression: lemmas\<close>

lemma regexSpecial_cases:
  "regexSpecial c \<longleftrightarrow> c \<in> {CHR ''-'', CHR ''/'', CHR ''^'', CHR ''$'', CHR ''*'', CHR ''+'', CHR ''?'',
      CHR ''.'', CHR ''('', CHR '')'', CHR ''|'', CHR ''['', CHR '']'', CHR ''{'', CHR ''}'', CHR 0x5C}"
  by (auto simp: regexSpecial_def)

lemma plain_not_special: "plainNameChar c \<Longrightarrow> \<not> regexSpecial c"
  by (auto simp: regexSpecial_cases plainNameChar_def nameChar_def)

lemma nameChar_backslash: "\<not> nameChar (CHR 0x5C)"
  by (simp add: nameChar_def)

lemma colon_not_special: "\<not> regexSpecial CHR '':''"
  by (simp add: regexSpecial_def)

lemma backslash_special: "regexSpecial (CHR 0x5C)"
  by (simp add: regexSpecial_def)

lemma takeWhile_escape:
  "takeWhile nameChar (escapePattern cs) = takeWhile plainNameChar cs"
proof (induction cs)
  case Nil show ?case by simp
next
  case (Cons d ds)
  show ?case
  proof (cases "plainNameChar d")
    case True
    with plain_not_special[OF True] Cons show ?thesis
      by (simp add: plainNameChar_def)
  next
    case False
    show ?thesis
    proof (cases "regexSpecial d")
      case True
      with False show ?thesis by (simp add: nameChar_backslash)
    next
      case ns: False
      with False have "\<not> nameChar d"
        by (auto simp: plainNameChar_def regexSpecial_def)
      with ns False show ?thesis by simp
    qed
  qed
qed

lemma dropWhile_escape:
  "dropWhile nameChar (escapePattern cs) = escapePattern (dropWhile plainNameChar cs)"
proof (induction cs)
  case Nil show ?case by simp
next
  case (Cons d ds)
  show ?case
  proof (cases "plainNameChar d")
    case True
    with plain_not_special[OF True] Cons show ?thesis
      by (simp add: plainNameChar_def)
  next
    case False
    show ?thesis
    proof (cases "regexSpecial d")
      case True
      with False show ?thesis by (simp add: nameChar_backslash)
    next
      case ns: False
      with False have "\<not> nameChar d"
        by (auto simp: plainNameChar_def regexSpecial_def)
      with ns False show ?thesis by simp
    qed
  qed
qed

lemma compilePattern_atomsOf: "compilePattern p = Some (atomsOf p)"
  unfolding compilePattern_def
proof (induction p rule: atomsOf.induct)
  case 1
  show ?case by simp
next
  case (2 c cs)
  show ?case
  proof (cases "regexSpecial c")
    case True
    hence "c \<noteq> CHR '':''" using colon_not_special by auto
    with True 2 show ?thesis by simp
  next
    case ns: False
    hence nb: "c \<noteq> CHR 0x5C" using backslash_special by auto
    show ?thesis
    proof (cases "c = CHR '':'' \<and> takeWhile plainNameChar cs \<noteq> []")
      case True
      with ns 2 show ?thesis
        by (simp add: takeWhile_escape dropWhile_escape)
    next
      case False
      with ns nb 2 show ?thesis
        by (auto simp add: takeWhile_escape)
    qed
  qed
qed

lemma matchesPath_atomsOf:
  "matchesPath cfg pattern req =
     Inr (regexTest (atomsOf (trimTrailingSlash (normalizePath pattern)))
            (trimTrailingSlash (getPathWithoutBase cfg req)))"
  by (simp add: matchesPath_def compilePattern_atomsOf)

section \<open>Clearing\<close>

text \<open>
  Claim C7. After \<open>clear\<close> the registry has no entry and the state reads as empty, both
  in the result of the one call; matching then finds no definition, and the interceptor
  hands every request to the real transport.
\<close>

theorem clear_falls_through:
  "endpoints (clear m) = [] \<and> state (clear m) = [] \<and> getState (clear m) = []
   \<and> findMatchingEndpoint (mconfig (clear m)) (endpoints (clear m)) (reqMethod req) req
       = Inr None
   \<and> intercept pf (clear m) req = (PassedThrough req, clear m)"
  by (simp add: clear_def getState_def findMatchingEndpoint_def intercept_def)

section \<open>Request bodies\<close>

lemma parseRequestBody_cases:
  "parseRequestBody pf req =
     (case bodyText req of
        Inl x \<Rightarrow> Inr JUndefined
      | Inr text \<Rightarrow>
          if text = [] then Inr JUndefined
          else (case jsonParse pf text of Inl x \<Rightarrow> Inr (JString text) | Inr v \<Rightarrow> Inr v))"
  by (simp add: parseRequestBody_def tryCatch_def split: sum.splits)

text \<open>
  Claim C8. The body given to a handler: an empty body is \<open>undefined\<close>, a non-empty body
  that \<open>JSON.parse\<close> accepts is the decoded value, a non-empty body it refuses is the raw
  text. \<open>parseRequestBody\<close> returns a value for every request and every \<open>JSON.parse\<close>,
  so building the context never fails, and the context carries that value.
\<close>

theorem parseRequestBody_best_effort:
  "(bodyText req = Inr [] \<longrightarrow> parseRequestBody pf req = Inr JUndefined)
   \<and> (\<forall>text v. bodyText req = Inr text \<and> text \<noteq> [] \<and> jsonParse pf text = Inr v
         \<longrightarrow> parseRequestBody pf req = Inr v)
   \<and> (\<forall>text x. bodyText req = Inr text \<and> text \<noteq> [] \<and> jsonParse pf text = Inl x
         \<longrightarrow> parseRequestBody pf req = Inr (JString text))
   \<and> (\<exists>v. parseRequestBody pf req = Inr v)
   \<and> (\<forall>cfg st pattern. \<exists>context. buildRequestContext pf cfg st pattern req = Inr context
         \<and> parseRequestBody pf req = Inr (ctxBody context))"
  by (auto simp: parseRequestBody_cases buildRequestContext_def split: sum.splits)

theorem parseRequestBody_best_effort_witness:
  "parseRequestBody samplePlatform (getRequest ''/todos'' []) = Inr JUndefined
   \<and> parseRequestBody samplePlatform (postRequest ''/todos'' ''{\"title\":\"First todo\"}'')
       = Inr (JObject [(''title'', JString ''First todo'')])
   \<and> parseRequestBody samplePlatform (postRequest ''/todos'' ''not json'')
       = Inr (JString ''not json'')"
proof -
  have empty: "bodyText (getRequest ''/todos'' []) = Inr []"
    by (simp add: getRequest_def)
  have json: "bodyText (postRequest ''/todos'' ''{\"title\":\"First todo\"}'')
                = Inr ''{\"title\":\"First todo\"}''
              \<and> ''{\"title\":\"First todo\"}'' \<noteq> []
              \<and> jsonParse samplePlatform ''{\"title\":\"First todo\"}''
                  = Inr (JObject [(''title'', JString ''First todo'')])"
    by (simp add: postRequest_def samplePlatform_def)
  have raw: "bodyText (postRequest ''/todos'' ''not json'') = Inr ''not json''
             \<and> ''not json'' \<noteq> []
             \<and> jsonParse samplePlatform ''not json''
                 = Inl (Error ''SyntaxError'' ''Unexpected token'')"
    by (simp add: postRequest_def samplePlatform_def)
  from parseRequestBody_best_effort [of "getRequest ''/todos'' []" samplePlatform] empty
  have 1: "parseRequestBody samplePlatform (getRequest ''/todos'' []) = Inr JUndefined"
    by blast
  from parseRequestBody_best_effort
         [of "postRequest ''/todos'' ''{\"title\":\"First todo\"}''" samplePlatform] json
  have 2: "parseRequestBody samplePlatform (postRequest ''/todos'' ''{\"title\":\"First todo\"}'')
             = Inr (JObject [(''title'', JString ''First todo'')])"
    by blast
  from parseRequestBody_best_effort [of "postRequest ''/todos'' ''not json''" samplePlatform] raw
  have 3: "parseRequestBody samplePlatform (postRequest ''/todos'' ''not json'')
             = Inr (JString ''not json'')"
    by blast
  from 1 2 3 show ?thesis by blast
qed

section \<open>Query parameters\<close>

lemma lookup_extractQueryParams:
  "lookup (extractQueryParams req) k =
     (if k = ''__proto__'' then None else lookup (rev (searchParams req)) k)"
  by (simp add: extractQueryParams_def lookup_fold_assignProp split: option.splits)

lemma matchesQueryParams_iff:
  "matchesQueryParams q req \<longleftrightarrow> (\<forall>(k, v) \<in> set q. lookup (searchParams req) k = Some v)"
  by (induction q req rule: matchesQueryParams.induct) auto

text \<open>
  The query string \<open>?__proto__=a&__proto__=b\<close> repeats a key. A constraint on that key
  is compared with \<open>a\<close>, the first occurrence; the \<open>queryParams\<close> of the context built
  for a handler hold no entry for the key at all, so not the last occurrence \<open>b\<close>.
\<close>

theorem proto_query_key_counterexample:
  "lookup (searchParams (getRequest ''/users'' [(''__proto__'', ''a''), (''__proto__'', ''b'')]))
     ''__proto__'' = Some ''a''
   \<and> lookup (rev (searchParams
        (getRequest ''/users'' [(''__proto__'', ''a''), (''__proto__'', ''b'')])))
       ''__proto__'' = Some ''b''
   \<and> buildRequestContext samplePlatform defaultConfig [] ''/users''
        (getRequest ''/users'' [(''__proto__'', ''a''), (''__proto__'', ''b'')])
       = Inr \<lparr>params = [], ctxBody = JUndefined, ctxQueryParams = [], ctxHeaders = [],
               ctxRequest = getRequest ''/users'' [(''__proto__'', ''a''), (''__proto__'', ''b'')],
               ctxState = []\<rparr>"
  by (simp add: getRequest_def buildRequestContext_def parseRequestBody_def tryCatch_def
        extractQueryParams_def assignProp_def extractHeaders_def extractParams_def
        defaultConfig_def getPathWithoutBase_def getBasePath_def normalizePath_def
        trimTrailingSlash_def startsWith_def endsWith_def filterBoolean_def)

text \<open>
  Claim C10, amended. A query constraint is compared with the first occurrence of its key
  (\<open>lookup\<close> on the parameters in order). The context built for a handler, which is the
  one the handler is called with, holds in \<open>queryParams\<close> the last occurrence of every
  key other than \<open>__proto__\<close> (\<open>lookup\<close> on the reversed list), and no entry for
  \<open>__proto__\<close>. So there is a request with a repeated key whose last value a handler
  sees and which a constraint on that value does not match.
\<close>

theorem query_first_vs_last:
  "(\<forall>q req. matchesQueryParams q req
       \<longleftrightarrow> (\<forall>(k, v) \<in> set q. lookup (searchParams req) k = Some v))
   \<and> (\<forall>pf cfg st pattern req.
         \<exists>context. buildRequestContext pf cfg st pattern req = Inr context
           \<and> (\<forall>k. k \<noteq> ''__proto__'' \<longrightarrow>
                  lookup (ctxQueryParams context) k = lookup (rev (searchParams req)) k)
           \<and> lookup (ctxQueryParams context) ''__proto__'' = None)
   \<and> (\<forall>pf cfg st e req handler. source e = Handler handler \<longrightarrow>
         (\<exists>context. buildRequestContext pf cfg st (path e) req = Inr context
            \<and> resolveEndpointResponse pf cfg st e req = handler context))
   \<and> (\<exists>req k v. k \<noteq> ''__proto__'' \<and> lookup (rev (searchParams req)) k = Some v
         \<and> \<not> matchesQueryParams [(k, v)] req
         \<and> (\<forall>pf cfg st pattern.
               \<exists>context. buildRequestContext pf cfg st pattern req = Inr context
                 \<and> lookup (ctxQueryParams context) k = Some v))"
proof -
  have ctx: "\<exists>context. buildRequestContext pf cfg st pattern req = Inr context
           \<and> (\<forall>k. k \<noteq> ''__proto__'' \<longrightarrow>
                  lookup (ctxQueryParams context) k = lookup (rev (searchParams req)) k)
           \<and> lookup (ctxQueryParams context) ''__proto__'' = None"
    for pf cfg st pattern req
  proof -
    have "\<exists>b. parseRequestBody pf req = Inr b"
      by (simp add: parseRequestBody_cases split: sum.splits)
    then obtain b where "parseRequestBody pf req = Inr b" ..
    hence built: "buildRequestContext pf cfg st pattern req =
             Inr \<lparr>params = extractParams cfg pattern req, ctxBody = b,
                   ctxQueryParams = extractQueryParams req, ctxHeaders = extractHeaders req,
                   ctxRequest = req, ctxState = st\<rparr>"
      by (simp add: buildRequestContext_def)
    have "\<forall>k. k \<noteq> ''__proto__'' \<longrightarrow>
            lookup (extractQueryParams req) k = lookup (rev (searchParams req)) k"
      and "lookup (extractQueryParams req) ''__proto__'' = None"
      by (simp_all add: lookup_extractQueryParams)
    with built show ?thesis by simp
  qed
  have call: "\<exists>context. buildRequestContext pf cfg st (path e) req = Inr context
            \<and> resolveEndpointResponse pf cfg st e req = handler context"
    if "source e = Handler handler" for pf cfg st e req handler
  proof -
    from ctx obtain c where "buildRequestContext pf cfg st (path e) req = Inr c"
      by blast
    with that show ?thesis by (simp add: resolveEndpointResponse_def)
  qed
  let ?req = "getRequest ''/users'' [(''role'', ''admin''), (''role'', ''user'')]"
  have last: "lookup (rev (searchParams ?req)) ''role'' = Some ''user''"
    and nomatch: "\<not> matchesQueryParams [(''role'', ''user'')] ?req"
    by (simp_all add: getRequest_def)
  have seen: "\<exists>context. buildRequestContext pf cfg st pattern ?req = Inr context
                 \<and> lookup (ctxQueryParams context) ''role'' = Some ''user''"
    for pf cfg st pattern
  proof -
    from ctx [of pf cfg st pattern ?req] obtain c where
      c1: "buildRequestContext pf cfg st pattern ?req = Inr c"
      and c2: "\<forall>k. k \<noteq> ''__proto__'' \<longrightarrow>
         lookup (ctxQueryParams c) k = lookup (rev (searchParams ?req)) k"
      by blast
    have ne: "''role'' \<noteq> ''__proto__''" by simp
    from c2 [rule_format, OF ne]
    have "lookup (ctxQueryParams c) ''role'' = lookup (rev (searchParams ?req)) ''role''" .
    with last have l: "lookup (ctxQueryParams c) ''role'' = Some ''user''" by (simp only:)
    show ?thesis by (rule exI [of _ c]) (simp only: c1 l simp_thms)
  qed
  have ex: "\<exists>req k v. k \<noteq> ''__proto__'' \<and> lookup (rev (searchParams req)) k = Some v
         \<and> \<not> matchesQueryParams [(k, v)] req
         \<and> (\<forall>pf cfg st pattern.
               \<exists>context. buildRequestContext pf cfg st pattern req = Inr context
                 \<and> lookup (ctxQueryParams context) k = Some v)"
  proof -
    have "''role'' \<noteq> ''__proto__'' \<and> lookup (rev (searchParams ?req)) ''role'' = Some ''user''
         \<and> \<not> matchesQueryParams [(''role'', ''user'')] ?req
         \<and> (\<forall>pf cfg st pattern.
               \<exists>context. buildRequestContext pf cfg st pattern ?req = Inr context
                 \<and> lookup (ctxQueryParams context) ''role'' = Some ''user'')"
      using last nomatch seen by (intro conjI allI) simp_all
    thus ?thesis by (intro exI)
  qed
  show ?thesis
  proof (intro conjI allI impI)
    fix q req
    show "matchesQueryParams q req
            \<longleftrightarrow> (\<forall>(k, v) \<in> set q. lookup (searchParams req) k = Some v)"
      by (rule matchesQueryParams_iff)
  next
    fix pf cfg st pattern req
    show "\<exists>context. buildRequestContext pf cfg st pattern req = Inr context
           \<and> (\<forall>k. k \<noteq> ''__proto__'' \<longrightarrow>
                  lookup (ctxQueryParams context) k = lookup (rev (searchParams req)) k)
           \<and> lookup (ctxQueryParams context) ''__proto__'' = None"
      by (rule ctx)
  next
    fix pf cfg st and e :: endpoint and req handler
    assume "source e = Handler handler"
    thus "\<exists>context. buildRequestContext pf cfg st (path e) req = Inr context
            \<and> resolveEndpointResponse pf cfg st e req = handler context"
      by (rule call)
  next
    show "\<exists>req k v. k \<noteq> ''__proto__'' \<and> lookup (rev (searchParams req)) k = Some v
         \<and> \<not> matchesQueryParams [(k, v)] req
         \<and> (\<forall>pf cfg st pattern.
               \<exists>context. buildRequestContext pf cfg st pattern req = Inr context
                 \<and> lookup (ctxQueryParams context) k = Some v)"
      by (rule ex)
  qed
qed

theorem query_first_vs_last_witness:
  "matchesQueryParams [(''role'', ''admin'')]
     (getRequest ''/users'' [(''role'', ''admin''), (''role'', ''user'')])
   \<and> (\<exists>context. buildRequestContext samplePlatform defaultConfig [] ''/users''
          (getRequest ''/users'' [(''role'', ''admin''), (''role'', ''user'')]) = Inr context
        \<and> lookup (ctxQueryParams context) ''role'' = Some ''user'')"
proof -
  let ?req = "getRequest ''/users'' [(''role'', ''admin''), (''role'', ''user'')]"
  note first_occurrence = query_first_vs_last [THEN conjunct1, rule_format]
  note inst = query_first_vs_last
                [THEN conjunct2, THEN conjunct1, rule_format,
                 of samplePlatform defaultConfig "[]" "''/users''" ?req]
  have first: "\<forall>(k, v) \<in> set [(''role'', ''admin'')]. lookup (searchParams ?req) k = Some v"
    by (simp add: getRequest_def)
  with first_occurrence [of "[(''role'', ''admin'')]" ?req]
  have 1: "matchesQueryParams [(''role'', ''admin'')] ?req" by blast
  from inst obtain c where
    c: "buildRequestContext samplePlatform defaultConfig [] ''/users'' ?req = Inr c"
    and l: "\<forall>k. k \<noteq> ''__proto__'' \<longrightarrow>
              lookup (ctxQueryParams c) k = lookup (rev (searchParams ?req)) k"
    by blast
  have ne: "''role'' \<noteq> ''__proto__''" by simp
  from l [rule_format, OF ne]
  have "lookup (ctxQueryParams c) ''role'' = lookup (rev (searchParams ?req)) ''role''" .
  hence "lookup (ctxQueryParams c) ''role'' = Some ''user''"
    by (simp add: getRequest_def)
  with c have "\<exists>context. buildRequestContext samplePlatform defaultConfig [] ''/users'' ?req
                   = Inr context
                 \<and> lookup (ctxQueryParams context) ''role'' = Some ''user''"
    by (intro exI [of _ c]) (simp only: simp_thms)
  with 1 show ?thesis by (simp only: simp_thms)
qed

section \<open>Response descriptors\<close>

lemma isMockResponse_iff:
  "isMockResponse v \<longleftrightarrow>
     (\<exists>fs. v = JObject fs \<and> ''data'' \<in> fst ` set fs
        \<and> (''status'' \<in> fst ` set fs \<or> ''headers'' \<in> fst ` set fs))"
  by (cases v) (auto simp: isMockResponse_def lookup_eq_None_iff)

text \<open>
  Claim C3. A resolved value is taken as a response descriptor exactly when it is a
  (non-null) object with a \<open>data\<close> key and a \<open>status\<close> or a \<open>headers\<close> key. For a
  descriptor the body comes from its \<open>data\<close>, the status from its \<open>status\<close> (when not
  nullish) and its \<open>headers\<close> join the merge; any other value is itself the payload,
  with the status and headers of the definition. An object with the one key \<open>data\<close> is
  not a descriptor: the whole object is serialised.
\<close>

theorem descriptor_classification:
  "(isMockResponse v \<longleftrightarrow>
      (\<exists>fs. v = JObject fs \<and> ''data'' \<in> fst ` set fs
         \<and> (''status'' \<in> fst ` set fs \<or> ''headers'' \<in> fst ` set fs)))
   \<and> (isMockResponse v \<longrightarrow>
        respBody (normalizeResponse cfg e v) = serializeBody (getProperty v ''data'')
        \<and> respStatus (normalizeResponse cfg e v) =
            (if nullish (getProperty v ''status'')
             then JNumber (case status e of Some n \<Rightarrow> n | None \<Rightarrow> 200)
             else getProperty v ''status'')
        \<and> respHeaders (normalizeResponse cfg e v) =
            mergeHeaders cfg [map_option stringEntries (headers e),
                              headerGroup (getProperty v ''headers'')])
   \<and> (\<not> isMockResponse v \<longrightarrow>
        normalizeResponse cfg e v =
          \<lparr>respBody = serializeBody v,
           respStatus = JNumber (case status e of Some n \<Rightarrow> n | None \<Rightarrow> 200),
           respHeaders = mergeHeaders cfg [map_option stringEntries (headers e)]\<rparr>)
   \<and> (\<forall>d. \<not> isMockResponse (JObject [(''data'', d)])
         \<and> respBody (normalizeResponse cfg e (JObject [(''data'', d)]))
             = JSONstringify (JObject [(''data'', d)]))"
proof (intro conjI allI impI)
  show "isMockResponse v \<longleftrightarrow>
      (\<exists>fs. v = JObject fs \<and> ''data'' \<in> fst ` set fs
         \<and> (''status'' \<in> fst ` set fs \<or> ''headers'' \<in> fst ` set fs))"
    by (rule isMockResponse_iff)
next
  fix d
  show "\<not> isMockResponse (JObject [(''data'', d)])"
    by (simp add: isMockResponse_def)
  thus "respBody (normalizeResponse cfg e (JObject [(''data'', d)]))
             = JSONstringify (JObject [(''data'', d)])"
    by (simp add: normalizeResponse_def serializeBody_def)
qed (simp_all add: normalizeResponse_def)

theorem descriptor_classification_witness:
  "isMockResponse (JObject [(''data'', JString ''created''), (''status'', JNumber 201)])
   \<and> respBody (normalizeResponse defaultConfig (staticEndpoint ''POST'' ''/users'' JNull)
        (JObject [(''data'', JString ''created''), (''status'', JNumber 201)]))
       = BodyInit (JString ''created'')
   \<and> respStatus (normalizeResponse defaultConfig (staticEndpoint ''POST'' ''/users'' JNull)
        (JObject [(''data'', JString ''created''), (''status'', JNumber 201)]))
       = JNumber 201
   \<and> normalizeResponse defaultConfig (staticEndpoint ''GET'' ''/test1'' JNull)
        (JObject [(''data'', JNumber 1)])
       = \<lparr>respBody = JSONstringify (JObject [(''data'', JNumber 1)]),
          respStatus = JNumber 200,
          respHeaders = [(''Content-Type'', JString ''application/json'')]\<rparr>"
proof -
  let ?v = "JObject [(''data'', JString ''created''), (''status'', JNumber 201)]"
  let ?w = "JObject [(''data'', JNumber 1)]"
  have keys: "\<exists>fs. ?v = JObject fs \<and> ''data'' \<in> fst ` set fs
         \<and> (''status'' \<in> fst ` set fs \<or> ''headers'' \<in> fst ` set fs)"
    by simp
  have nokeys: "\<not> (\<exists>fs. ?w = JObject fs \<and> ''data'' \<in> fst ` set fs
         \<and> (''status'' \<in> fst ` set fs \<or> ''headers'' \<in> fst ` set fs))"
    by simp
  note v = descriptor_classification
             [of ?v defaultConfig "staticEndpoint ''POST'' ''/users'' JNull"]
  note w = descriptor_classification
             [of ?w defaultConfig "staticEndpoint ''GET'' ''/test1'' JNull"]
  have d: "isMockResponse ?v" using v keys by blast
  have nd: "\<not> isMockResponse ?w" using w nokeys by blast
  have 1: "respBody (normalizeResponse defaultConfig (staticEndpoint ''POST'' ''/users'' JNull) ?v)
             = BodyInit (JString ''created'')
           \<and> respStatus (normalizeResponse defaultConfig (staticEndpoint ''POST'' ''/users'' JNull) ?v)
             = JNumber 201"
    using v d by (simp add: serializeBody_def nullish_def)
  have 2: "normalizeResponse defaultConfig (staticEndpoint ''GET'' ''/test1'' JNull) ?w
       = \<lparr>respBody = JSONstringify ?w, respStatus = JNumber 200,
          respHeaders = [(''Content-Type'', JString ''application/json'')]\<rparr>"
    using w nd
    by (simp add: serializeBody_def staticEndpoint_def defaultConfig_def mergeHeaders_def
          stringEntries_def assignProp_def)
  from d 1 2 show ?thesis by blast
qed

section \<open>Status and headers of a built response\<close>








section \<open>Simulated network failures\<close>

text \<open>
  Claim C5. A definition with a network-error label (a non-empty string, which is what
  the guard of \<open>createMockResponse\<close> tests) fails every invocation: the result is an
  error and never a response, the response source is not consulted and the state is left
  as it was. \<open>timeout\<close> and \<open>connection_refused\<close> each give a \<open>TypeError\<close> with its own
  message, \<open>abort\<close> gives an error named \<open>AbortError\<close> (a \<open>DOMException\<close> where there is
  one), any other label gives the generic \<open>TypeError\<close>; and the intercepted call for
  which such a definition is selected is rejected.
\<close>

theorem network_error_always_fails:
  assumes "networkError e = Some label" and "label \<noteq> []"
  shows "(\<exists>x. createMockResponse pf cfg st e req = (Inl x, st))
     \<and> (\<forall>src. createMockResponse pf cfg st (e\<lparr>source := src\<rparr>) req
                = createMockResponse pf cfg st e req)
     \<and> (label = ''timeout'' \<longrightarrow>
          createMockResponse pf cfg st e req
            = (Inl (TypeError ''Network request failed: timeout''), st))
     \<and> (label = ''connection_refused'' \<longrightarrow>
          createMockResponse pf cfg st e req
            = (Inl (TypeError ''Network request failed: connection refused''), st))
     \<and> (label = ''abort'' \<longrightarrow>
          (\<exists>x. createMockResponse pf cfg st e req = (Inl x, st)
             \<and> errorName x = ''AbortError'' \<and> errorMessage x = ''The operation was aborted''))
     \<and> (label \<notin> {''timeout'', ''connection_refused'', ''abort''} \<longrightarrow>
          createMockResponse pf cfg st e req = (Inl (TypeError ''Network request failed''), st))
     \<and> (\<forall>m. isEnabled m
            \<and> findMatchingEndpoint (mconfig m) (endpoints m) (reqMethod req) req = Inr (Some e)
          \<longrightarrow> (\<exists>x. intercept pf m req = (Rejected x, m)))"
proof -
  have guard: "whenTruthy (networkError e) = Some label"
    using assms by (simp add: whenTruthy_def)
  hence cmr: "createMockResponse pf' cfg' st' (e\<lparr>source := src\<rparr>) req = (simulateNetworkError pf' label, st')"
    "createMockResponse pf' cfg' st' e req = (simulateNetworkError pf' label, st')" for src pf' cfg' st'
    by (simp_all add: createMockResponse_def)
  have "\<exists>x. simulateNetworkError pf label = Inl x"
    by (simp add: simulateNetworkError_def)
  then obtain x where x: "simulateNetworkError pf label = Inl x" ..
  have "\<exists>x. intercept pf m req = (Rejected x, m)"
    if "isEnabled m \<and> findMatchingEndpoint (mconfig m) (endpoints m) (reqMethod req) req = Inr (Some e)" for m
    using that x by (simp add: intercept_def cmr)
  moreover have "label = ''abort'' \<longrightarrow>
          (\<exists>x. createMockResponse pf cfg st e req = (Inl x, st)
             \<and> errorName x = ''AbortError'' \<and> errorMessage x = ''The operation was aborted'')"
    by (cases "hasDOMException pf") (simp_all add: cmr simulateNetworkError_def)
  moreover have "label \<notin> {''timeout'', ''connection_refused'', ''abort''} \<longrightarrow>
          createMockResponse pf cfg st e req = (Inl (TypeError ''Network request failed''), st)"
    by (simp add: cmr simulateNetworkError_def)
  ultimately show ?thesis
    using x by (simp add: cmr simulateNetworkError_def)
qed

theorem network_error_always_fails_witness:
  "createMockResponse samplePlatform defaultConfig [] timeoutEndpoint (getRequest ''/timeout'' [])
     = (Inl (TypeError ''Network request failed: timeout''), [])"
proof -
  have h1: "networkError timeoutEndpoint = Some ''timeout''"
    by (simp add: timeoutEndpoint_def)
  have h2: "''timeout'' \<noteq> []" by simp
  from network_error_always_fails [OF h1 h2] show ?thesis by blast
qed


section \<open>Request matching: lemmas\<close>





lemma matchesEndpoint_throws:
  "httpMethod e = mth \<Longrightarrow> match e = Some p \<Longrightarrow> p req = Inl x
     \<Longrightarrow> matchesEndpoint cfg e mth req = Inl x"
  by (simp add: matchesEndpoint_def)

lemma matchesEndpoint_no_throw:
  assumes "\<forall>p. httpMethod e = mth \<and> match e = Some p \<longrightarrow> (\<exists>b. p req = Inr b)"
  shows "matchesEndpoint cfg e mth req =
     Inr (httpMethod e = mth
          \<and> (\<forall>p. match e = Some p \<longrightarrow> p req = Inr True)
          \<and> regexTest (atomsOf (trimTrailingSlash (normalizePath (path e))))
               (trimTrailingSlash (getPathWithoutBase cfg req))
          \<and> (\<forall>q. queryParams e = Some q \<longrightarrow> matchesQueryParams q req)
          \<and> (\<forall>h. requestHeaders e = Some h \<longrightarrow> matchesHeaders h req))"
proof (cases "httpMethod e = mth")
  case False
  thus ?thesis by (simp add: matchesEndpoint_def)
next
  case True
  show ?thesis
  proof (cases "match e")
    case None
    with True show ?thesis
      by (simp add: matchesEndpoint_def matchesPath_atomsOf split: option.splits bool.splits)
  next
    case (Some p)
    with assms True obtain b where "p req = Inr b" by blast
    with True Some show ?thesis
      by (simp add: matchesEndpoint_def matchesPath_atomsOf split: option.splits bool.splits)
  qed
qed




section \<open>Gathering candidates\<close>

lemma scanList_append:
  "scanList cfg mth req (xs @ ys) acc =
     (case scanList cfg mth req xs acc of
        Inl x \<Rightarrow> Inl x
      | Inr acc' \<Rightarrow> scanList cfg mth req ys acc')"
  by (induction xs arbitrary: acc) (auto split: sum.splits bool.splits)

lemma scanRegistry_concat:
  "scanRegistry cfg mth req eps acc = scanList cfg mth req (concat (map snd eps)) acc"
  by (induction eps arbitrary: acc) (auto simp: scanList_append split: sum.splits)

text \<open>When no check throws, the candidates are the applicable definitions, in order.\<close>

lemma scanList_no_throw:
  assumes "\<forall>e \<in> set es. \<exists>b. matchesEndpoint cfg e mth req = Inr b"
  shows "scanList cfg mth req es acc =
     Inr (acc @ map (\<lambda>e. (e, calculateSpecificity (path e)))
                  (filter (\<lambda>e. matchesEndpoint cfg e mth req = Inr True) es))"
  using assms
proof (induction es arbitrary: acc)
  case Nil
  show ?case by simp
next
  case (Cons e es)
  then obtain b where b: "matchesEndpoint cfg e mth req = Inr b" by auto
  with Cons show ?case by (cases b) auto
qed

lemma scanList_Inr_no_throw:
  "scanList cfg mth req es acc = Inr cs \<Longrightarrow> \<forall>e \<in> set es. \<exists>b. matchesEndpoint cfg e mth req = Inr b"
  by (induction es arbitrary: acc) (auto split: sum.splits bool.splits)

text \<open>
  Claim C9. Let a definition whose method is that of the request have a predicate that
  throws on the request, and let no predicate of the definitions visited before it throw.
  Then \<open>matchesEndpoint\<close> throws for it, the search throws instead of returning a
  definition or none (whatever comes after it in the registry, and whatever matched
  before it), and the intercepted call is rejected with the thrown value: no response,
  and the real transport is not called.
\<close>

theorem predicate_exception_propagates:
  assumes "isEnabled m"
      and "concat (map snd (endpoints m)) = pre @ e # post"
      and "\<forall>e' \<in> set pre. \<forall>p'. httpMethod e' = reqMethod req \<and> match e' = Some p'
             \<longrightarrow> (\<exists>b. p' req = Inr b)"
      and "httpMethod e = reqMethod req" and "match e = Some p" and "p req = Inl x"
  shows "matchesEndpoint (mconfig m) e (reqMethod req) req = Inl x
     \<and> findMatchingEndpoint (mconfig m) (endpoints m) (reqMethod req) req = Inl x
     \<and> intercept pf m req = (Rejected x, m)"
proof -
  let ?cfg = "mconfig m" and ?mth = "reqMethod req"
  have thrown: "matchesEndpoint ?cfg e ?mth req = Inl x"
    using assms(4-6) by (rule matchesEndpoint_throws)
  have "\<forall>e' \<in> set pre. \<exists>b. matchesEndpoint ?cfg e' ?mth req = Inr b"
  proof
    fix e' assume "e' \<in> set pre"
    with assms(3) have "\<forall>p'. httpMethod e' = ?mth \<and> match e' = Some p' \<longrightarrow> (\<exists>b. p' req = Inr b)"
      by blast
    from matchesEndpoint_no_throw [OF this]
    show "\<exists>b. matchesEndpoint ?cfg e' ?mth req = Inr b" by blast
  qed
  from scanList_no_throw [OF this]
  obtain cs where "scanList ?cfg ?mth req pre [] = Inr cs" by blast
  hence "scanRegistry ?cfg ?mth req (endpoints m) [] = Inl x"
    using thrown by (simp add: scanRegistry_concat assms(2) scanList_append)
  hence found: "findMatchingEndpoint ?cfg (endpoints m) ?mth req = Inl x"
    by (simp add: findMatchingEndpoint_def)
  with assms(1) have "intercept pf m req = (Rejected x, m)"
    by (simp add: intercept_def)
  with thrown found show ?thesis by blast
qed

theorem predicate_exception_propagates_witness:
  "intercept samplePlatform guardedMocker (getRequest ''/users/me'' [])
     = (Rejected (Error ''Error'' ''predicate failed''), guardedMocker)
   \<and> findMatchingEndpoint defaultConfig
        (endpoints (mock (mock newMocker (staticEndpoint ''GET'' ''/users/me'' (JString ''me'')))
                         (staticEndpoint ''GET'' ''/users/:name'' (JString ''named''))))
        ''GET'' (getRequest ''/users/me'' [])
       = Inr (Some ((staticEndpoint ''GET'' ''/users/me'' (JString ''me''))\<lparr>priority := Some 0\<rparr>))"
proof -
  let ?a = "(staticEndpoint ''GET'' ''/users/me'' (JString ''me''))\<lparr>priority := Some 0\<rparr>"
  let ?t = "throwingEndpoint\<lparr>priority := Some 0\<rparr>"
  let ?c = "(staticEndpoint ''GET'' ''/users/:name'' (JString ''named''))\<lparr>priority := Some 0\<rparr>"
  have eps: "endpoints guardedMocker =
               [(''GET:/users/me'', [?a]), (''GET:/users/:id'', [?t]), (''GET:/users/:name'', [?c])]"
    by (simp add: guardedMocker_def mock_def newMocker_def defaultConfig_def staticEndpoint_def
          throwingEndpoint_def createEndpointKey_def sortEndpointsByPriority_def Let_def)
  have h1: "isEnabled guardedMocker"
    by (simp add: guardedMocker_def mock_def newMocker_def Let_def)
  have h2: "concat (map snd (endpoints guardedMocker)) = [?a] @ ?t # [?c]"
    by (simp add: eps)
  have h3: "\<forall>e' \<in> set [?a]. \<forall>p'. httpMethod e' = reqMethod (getRequest ''/users/me'' [])
              \<and> match e' = Some p' \<longrightarrow> (\<exists>b. p' (getRequest ''/users/me'' []) = Inr b)"
    by (simp add: staticEndpoint_def)
  have h4: "httpMethod ?t = reqMethod (getRequest ''/users/me'' [])"
    by (simp add: throwingEndpoint_def staticEndpoint_def getRequest_def)
  have h5: "match ?t = Some (\<lambda>req. Inl (Error ''Error'' ''predicate failed''))"
    by (simp add: throwingEndpoint_def)
  have h6: "(\<lambda>req. Inl (Error ''Error'' ''predicate failed'')) (getRequest ''/users/me'' [])
              = (Inl (Error ''Error'' ''predicate failed'') :: exn + bool)"
    by simp
  from predicate_exception_propagates [OF h1 h2 h3 h4 h5 h6, of samplePlatform]
  have 1: "intercept samplePlatform guardedMocker (getRequest ''/users/me'' [])
     = (Rejected (Error ''Error'' ''predicate failed''), guardedMocker)"
    by blast
  have 2: "findMatchingEndpoint defaultConfig
        (endpoints (mock (mock newMocker (staticEndpoint ''GET'' ''/users/me'' (JString ''me'')))
                         (staticEndpoint ''GET'' ''/users/:name'' (JString ''named''))))
        ''GET'' (getRequest ''/users/me'' []) = Inr (Some ?a)"
    by (simp add: mock_def newMocker_def defaultConfig_def staticEndpoint_def
          createEndpointKey_def sortEndpointsByPriority_def Let_def
          findMatchingEndpoint_def matchesEndpoint_def matchesPath_def compilePattern_def
          normalizePath_def trimTrailingSlash_def startsWith_def endsWith_def
          getPathWithoutBase_def getBasePath_def getRequest_def regexSpecial_def nameChar_def
          calculateSpecificity_def filterBoolean_def compareCandidates_def priorityOrZero_def)
  from 1 2 show ?thesis by blast
qed


section \<open>Ranking: lemmas\<close>

lemma compare_less: "compareCandidates a b < 0 \<longleftrightarrow>
   (priorityOrZero (fst a) > priorityOrZero (fst b)
    \<or> (priorityOrZero (fst a) = priorityOrZero (fst b) \<and> snd a > snd b))"
  by (auto simp: compareCandidates_def Let_def)

lemma compare_le: "compareCandidates a b \<le> 0 \<longleftrightarrow> \<not> compareCandidates b a < 0"
  by (auto simp: compareCandidates_def Let_def)

lemma compare_trans:
  "compareCandidates a b \<le> 0 \<Longrightarrow> compareCandidates b c \<le> 0 \<Longrightarrow> compareCandidates a c \<le> 0"
  by (auto simp: compareCandidates_def Let_def split: if_splits)

lemma sortBy_Nil_iff: "sortBy cmp xs = [] \<longleftrightarrow> xs = []"
proof (cases xs)
  case Nil thus ?thesis by simp
next
  case (Cons x xs')
  have "insertBy cmp x ys \<noteq> []" for ys by (cases ys) auto
  with Cons show ?thesis by simp
qed

lemma hd_insertBy:
  "hd (insertBy cmp x ys) = (if ys = [] \<or> cmp x (hd ys) \<le> 0 then x else hd ys)"
  by (cases ys) auto

text \<open>The head of the sorted candidates is the first candidate that no other one beats.\<close>

lemma sortBy_head:
  "xs \<noteq> [] \<Longrightarrow>
     \<exists>pre post. xs = pre @ hd (sortBy compareCandidates xs) # post
       \<and> (\<forall>c \<in> set pre. compareCandidates (hd (sortBy compareCandidates xs)) c < 0)
       \<and> (\<forall>c \<in> set post. compareCandidates (hd (sortBy compareCandidates xs)) c \<le> 0)"
proof (induction xs)
  case Nil
  thus ?case by simp
next
  case (Cons x xs)
  show ?case
  proof (cases "xs = []")
    case True
    thus ?thesis by (intro exI [of _ "[]"]) simp
  next
    case False
    let ?h = "hd (sortBy compareCandidates xs)"
    from Cons.IH [OF False] obtain pre post where
      xs: "xs = pre @ ?h # post"
      and pre: "\<forall>c \<in> set pre. compareCandidates ?h c < 0"
      and post: "\<forall>c \<in> set post. compareCandidates ?h c \<le> 0"
      by blast
    have ne: "sortBy compareCandidates xs \<noteq> []" using False by (simp add: sortBy_Nil_iff)
    show ?thesis
    proof (cases "compareCandidates x ?h \<le> 0")
      case True
      hence hd: "hd (sortBy compareCandidates (x # xs)) = x"
        using ne by (simp add: hd_insertBy)
      have "\<forall>c \<in> set xs. compareCandidates x c \<le> 0"
      proof
        fix c assume "c \<in> set xs"
        with xs have "c \<in> set pre \<or> c = ?h \<or> c \<in> set post"
          by (metis Un_iff in_set_conv_decomp set_ConsD set_append)
        with pre post have "compareCandidates ?h c \<le> 0 \<or> c = ?h" by fastforce
        with True show "compareCandidates x c \<le> 0" using compare_trans by blast
      qed
      with hd show ?thesis by (intro exI [of _ "[]"] exI [of _ xs]) simp
    next
      case False
      hence hd: "hd (sortBy compareCandidates (x # xs)) = ?h"
        using ne by (simp add: hd_insertBy)
      from False have "compareCandidates ?h x < 0" using compare_le [of x ?h] by simp
      with pre have "\<forall>c \<in> set (x # pre). compareCandidates ?h c < 0" by simp
      moreover have "x # xs = (x # pre) @ ?h # post" using xs by simp
      ultimately show ?thesis unfolding hd using post by blast
    qed
  qed
qed

lemma fold_specificity:
  "fold (\<lambda>segment specificity. if P segment then specificity + 1 else specificity + 10) xs a
     = a + (\<Sum>segment \<leftarrow> xs. if P segment then 1 else (10::int))"
  by (induction xs arbitrary: a) auto

lemma calculateSpecificity_sum:
  "calculateSpecificity p =
     (\<Sum>segment \<leftarrow> filterBoolean (splitSlash (trimTrailingSlash (normalizePath p))).
        if startsWith segment '':'' then 1 else 10)"
  by (simp add: calculateSpecificity_def fold_specificity)

text \<open>
  The list under a key is sorted by descending priority, and definitions of equal priority
  stay in the order in which they were registered.
\<close>

lemma set_insertBy: "set (insertBy cmp x ys) = insert x (set ys)"
  by (induction ys) auto

lemma set_sortBy: "set (sortBy cmp xs) = set xs"
  by (induction xs) (auto simp: set_insertBy)

lemma sorted_insertBy_priority:
  "sorted_wrt (\<lambda>a b. priorityOrZero a \<ge> priorityOrZero b) ys \<Longrightarrow>
   sorted_wrt (\<lambda>a b. priorityOrZero a \<ge> priorityOrZero b)
     (insertBy (\<lambda>a b. priorityOrZero b - priorityOrZero a) x ys)"
  by (induction ys) (auto simp: set_insertBy)

lemma sortBy_priority_sorted:
  "sorted_wrt (\<lambda>a b. priorityOrZero a \<ge> priorityOrZero b)
     (sortBy (\<lambda>a b. priorityOrZero b - priorityOrZero a) xs)"
  by (induction xs) (auto simp: sorted_insertBy_priority)

lemma filter_insertBy_priority:
  "filter (\<lambda>e. priorityOrZero e = p) (insertBy (\<lambda>a b. priorityOrZero b - priorityOrZero a) x ys)
     = (if priorityOrZero x = p then x # filter (\<lambda>e. priorityOrZero e = p) ys
        else filter (\<lambda>e. priorityOrZero e = p) ys)"
  by (induction ys) auto

lemma sortBy_priority_stable:
  "filter (\<lambda>e. priorityOrZero e = p) (sortBy (\<lambda>a b. priorityOrZero b - priorityOrZero a) xs)
     = filter (\<lambda>e. priorityOrZero e = p) xs"
  by (induction xs) (auto simp: filter_insertBy_priority)

text \<open>What \<open>mock\<close> leaves under the key of the definition it registers.\<close>

lemma lookup_mock:
  "lookup (endpoints (mock m e)) (createEndpointKey (httpMethod e) (path e)) =
     Some (sortBy (\<lambda>a b. priorityOrZero b - priorityOrZero a)
             ((case lookup (endpoints m) (createEndpointKey (httpMethod e) (path e)) of
                 Some es \<Rightarrow> es | None \<Rightarrow> [])
              @ [e\<lparr>priority := Some
                   (case priority e of
                      Some p \<Rightarrow> p
                    | None \<Rightarrow> (case defaultPriority (mconfig m) of Some d \<Rightarrow> d | None \<Rightarrow> 0))\<rparr>]))"
proof (cases "lookup (endpoints m) (createEndpointKey (httpMethod e) (path e))")
  case None
  thus ?thesis
    by (simp add: mock_def sortEndpointsByPriority_def lookup_assign Let_def)
next
  case (Some es)
  thus ?thesis
    by (cases "es = []")
       (simp_all add: mock_def sortEndpointsByPriority_def lookup_assign Let_def)
qed

text \<open>Where \<open>mock\<close> puts the key, and that it touches no other key.\<close>

lemma map_fst_assign:
  "map fst (assign ps k v) = (if lookup ps k = None then map fst ps @ [k] else map fst ps)"
  by (induction ps) (auto split: if_splits)

lemma mock_keys:
  "map fst (endpoints (mock m e)) =
     (if lookup (endpoints m) (createEndpointKey (httpMethod e) (path e)) = None
      then map fst (endpoints m) @ [createEndpointKey (httpMethod e) (path e)]
      else map fst (endpoints m))"
  by (cases "lookup (endpoints m) (createEndpointKey (httpMethod e) (path e))")
     (simp_all add: mock_def sortEndpointsByPriority_def lookup_assign map_fst_assign Let_def)

lemma mock_other_keys:
  "k \<noteq> createEndpointKey (httpMethod e) (path e)
     \<Longrightarrow> lookup (endpoints (mock m e)) k = lookup (endpoints m) k"
  by (cases "lookup (endpoints m) (createEndpointKey (httpMethod e) (path e))")
     (simp_all add: mock_def sortEndpointsByPriority_def lookup_assign Let_def)

lemma mock_distinct_keys:
  "distinct (map fst (endpoints m)) \<Longrightarrow> distinct (map fst (endpoints (mock m e)))"
  by (simp add: mock_keys lookup_eq_None_iff)

lemmas evaluation_rules =
  mock_def newMocker_def defaultConfig_def staticEndpoint_def
  createEndpointKey_def sortEndpointsByPriority_def Let_def
  findMatchingEndpoint_def matchesEndpoint_def matchesPath_def compilePattern_def
  normalizePath_def trimTrailingSlash_def startsWith_def endsWith_def
  getPathWithoutBase_def getBasePath_def getRequest_def regexSpecial_def nameChar_def
  calculateSpecificity_def filterBoolean_def compareCandidates_def priorityOrZero_def
  assignProp_def

text \<open>
  Three registrations, in this order: \<open>/users/:id\<close> at priority 0, \<open>/users/:name\<close>
  at priority 5, \<open>/users/:id\<close> at priority 5. The last two both apply to
  \<open>GET /users/1\<close> with equal priority and specificity. The third joins the list of the
  first key and is sorted to its front, and that key is visited first: the winner is the
  definition registered third, not the one registered second.
\<close>

theorem registration_order_counterexample:
  "findMatchingEndpoint defaultConfig
     (endpoints (mock (mock (mock newMocker lowEndpoint) firstTied) secondTied))
     ''GET'' (getRequest ''/users/1'' []) = Inr (Some secondTied)
   \<and> matchesEndpoint defaultConfig firstTied ''GET'' (getRequest ''/users/1'' []) = Inr True
   \<and> priorityOrZero firstTied = priorityOrZero secondTied
   \<and> calculateSpecificity (path firstTied) = calculateSpecificity (path secondTied)
   \<and> firstTied \<noteq> secondTied"
  by (simp add: lowEndpoint_def firstTied_def secondTied_def evaluation_rules)

text \<open>
  Claim C1, amended. When the search returns, it returns no definition exactly when none
  is applicable; otherwise the winner is an applicable definition that outranks (higher
  priority, or equal priority and higher specificity) every applicable definition the
  registry yields before it and is outranked by none that comes after it. The registry
  yields its keys in their order and, under a key, its list in order. The specificity of
  a path is the sum over its non-empty segments of 1 for a segment that starts with a
  colon and 10 for any other. Registering a definition leaves under its key the
  definitions that were there followed by the new one, with its explicit priority or else
  the configured default or else 0, sorted by descending priority with equal priorities in
  the order they had; it puts the key after all the keys of the registry when the key is
  new and leaves the keys as they are otherwise (keys stay distinct), and it leaves the
  list of every other key as it was.
\<close>

theorem winner_first_best_in_registry_order:
  assumes "findMatchingEndpoint cfg eps mth req = Inr result"
  shows "(result = None \<longleftrightarrow>
            filter (\<lambda>e. matchesEndpoint cfg e mth req = Inr True) (concat (map snd eps)) = [])
     \<and> (\<forall>w. result = Some w \<longrightarrow>
          (\<exists>pre post.
             filter (\<lambda>e. matchesEndpoint cfg e mth req = Inr True) (concat (map snd eps))
               = pre @ w # post
             \<and> (\<forall>c \<in> set pre. outranks w c)
             \<and> (\<forall>c \<in> set post. \<not> outranks c w)))
     \<and> (\<forall>p. calculateSpecificity p =
           (\<Sum>segment \<leftarrow> filterBoolean (splitSlash (trimTrailingSlash (normalizePath p))).
              if startsWith segment '':'' then 1 else 10))
     \<and> (\<forall>m e. lookup (endpoints (mock m e)) (createEndpointKey (httpMethod e) (path e)) =
           Some (sortBy (\<lambda>a b. priorityOrZero b - priorityOrZero a)
                   ((case lookup (endpoints m) (createEndpointKey (httpMethod e) (path e)) of
                       Some es \<Rightarrow> es | None \<Rightarrow> [])
                    @ [e\<lparr>priority := Some
                         (case priority e of
                            Some p \<Rightarrow> p
                          | None \<Rightarrow>
                              (case defaultPriority (mconfig m) of Some d \<Rightarrow> d | None \<Rightarrow> 0))\<rparr>])))
     \<and> (\<forall>es. sorted_wrt (\<lambda>a b. priorityOrZero a \<ge> priorityOrZero b)
                (sortBy (\<lambda>a b. priorityOrZero b - priorityOrZero a) es))
     \<and> (\<forall>es p. filter (\<lambda>e. priorityOrZero e = p)
                  (sortBy (\<lambda>a b. priorityOrZero b - priorityOrZero a) es)
                = filter (\<lambda>e. priorityOrZero e = p) es)
     \<and> (\<forall>m e. map fst (endpoints (mock m e)) =
           (if lookup (endpoints m) (createEndpointKey (httpMethod e) (path e)) = None
            then map fst (endpoints m) @ [createEndpointKey (httpMethod e) (path e)]
            else map fst (endpoints m)))
     \<and> (\<forall>m e. distinct (map fst (endpoints m)) \<longrightarrow> distinct (map fst (endpoints (mock m e))))
     \<and> (\<forall>m e k. k \<noteq> createEndpointKey (httpMethod e) (path e) \<longrightarrow>
           lookup (endpoints (mock m e)) k = lookup (endpoints m) k)"
proof -
  let ?app = "filter (\<lambda>e. matchesEndpoint cfg e mth req = Inr True) (concat (map snd eps))"
  let ?cand = "\<lambda>e. (e, calculateSpecificity (path e))"
  from assms obtain cs where scan: "scanRegistry cfg mth req eps [] = Inr cs"
    by (auto simp: findMatchingEndpoint_def split: sum.splits)
  hence "\<forall>e \<in> set (concat (map snd eps)). \<exists>b. matchesEndpoint cfg e mth req = Inr b"
    unfolding scanRegistry_concat by (rule scanList_Inr_no_throw)
  from scanList_no_throw [OF this, of "[]"] scan
  have cs: "cs = map ?cand ?app" by (simp add: scanRegistry_concat)
  have res: "result = (case sortBy compareCandidates cs of [] \<Rightarrow> None | c # _ \<Rightarrow> Some (fst c))"
    using assms scan by (auto simp: findMatchingEndpoint_def split: list.splits)
  have none: "result = None \<longleftrightarrow> ?app = []"
    using res cs sortBy_Nil_iff [of compareCandidates cs] by (auto split: list.splits)
  have some: "\<exists>pre post. ?app = pre @ w # post
             \<and> (\<forall>c \<in> set pre. outranks w c) \<and> (\<forall>c \<in> set post. \<not> outranks c w)"
    if w: "result = Some w" for w
  proof -
    from w none have ne: "cs \<noteq> []" using cs by auto
    hence "sortBy compareCandidates cs \<noteq> []" by (simp add: sortBy_Nil_iff)
    with res w have hd: "fst (hd (sortBy compareCandidates cs)) = w"
      by (auto split: list.splits)
    from sortBy_head [OF ne] obtain cpre cpost where
      dec: "cs = cpre @ hd (sortBy compareCandidates cs) # cpost"
      and cpre: "\<forall>c \<in> set cpre. compareCandidates (hd (sortBy compareCandidates cs)) c < 0"
      and cpost: "\<forall>c \<in> set cpost. compareCandidates (hd (sortBy compareCandidates cs)) c \<le> 0"
      by blast
    let ?h = "hd (sortBy compareCandidates cs)"
    have "?h \<in> set cs" using dec by (metis in_set_conv_decomp)
    hence h: "?h = ?cand w" using cs hd by auto
    from dec cs have "map ?cand ?app = cpre @ ?h # cpost" by simp
    then obtain pre post where app: "?app = pre @ w # post"
      and p1: "cpre = map ?cand pre" and p2: "cpost = map ?cand post"
      unfolding h
      by (auto simp: map_eq_append_conv map_eq_Cons_conv)
    have "\<forall>c \<in> set pre. outranks w c"
      using cpre unfolding p1 h by (auto simp: compare_less outranks_def)
    moreover have "\<forall>c \<in> set post. \<not> outranks c w"
      using cpost unfolding p2 h by (auto simp: compare_le compare_less outranks_def)
    ultimately show ?thesis using app by blast
  qed
  show ?thesis
  proof (intro conjI allI impI)
    show "result = None \<longleftrightarrow> ?app = []" by (rule none)
  next
    fix w assume "result = Some w"
    thus "\<exists>pre post. ?app = pre @ w # post
             \<and> (\<forall>c \<in> set pre. outranks w c) \<and> (\<forall>c \<in> set post. \<not> outranks c w)"
      by (rule some)
  next
    fix p
    show "calculateSpecificity p =
           (\<Sum>segment \<leftarrow> filterBoolean (splitSlash (trimTrailingSlash (normalizePath p))).
              if startsWith segment '':'' then 1 else 10)"
      by (rule calculateSpecificity_sum)
  next
    fix m e
    show "lookup (endpoints (mock m e)) (createEndpointKey (httpMethod e) (path e)) =
           Some (sortBy (\<lambda>a b. priorityOrZero b - priorityOrZero a)
                   ((case lookup (endpoints m) (createEndpointKey (httpMethod e) (path e)) of
                       Some es \<Rightarrow> es | None \<Rightarrow> [])
                    @ [e\<lparr>priority := Some
                         (case priority e of
                            Some p \<Rightarrow> p
                          | None \<Rightarrow>
                              (case defaultPriority (mconfig m) of Some d \<Rightarrow> d | None \<Rightarrow> 0))\<rparr>]))"
      by (rule lookup_mock)
  next
    fix es
    show "sorted_wrt (\<lambda>a b. priorityOrZero a \<ge> priorityOrZero b)
            (sortBy (\<lambda>a b. priorityOrZero b - priorityOrZero a) es)"
      by (rule sortBy_priority_sorted)
  next
    fix es p
    show "filter (\<lambda>e. priorityOrZero e = p) (sortBy (\<lambda>a b. priorityOrZero b - priorityOrZero a) es)
            = filter (\<lambda>e. priorityOrZero e = p) es"
      by (rule sortBy_priority_stable)
  next
    fix m e
    show "map fst (endpoints (mock m e)) =
           (if lookup (endpoints m) (createEndpointKey (httpMethod e) (path e)) = None
            then map fst (endpoints m) @ [createEndpointKey (httpMethod e) (path e)]
            else map fst (endpoints m))"
      by (rule mock_keys)
  next
    fix m :: mocker and e :: endpoint
    assume "distinct (map fst (endpoints m))"
    thus "distinct (map fst (endpoints (mock m e)))" by (rule mock_distinct_keys)
  next
    fix m :: mocker and e :: endpoint and k
    assume "k \<noteq> createEndpointKey (httpMethod e) (path e)"
    thus "lookup (endpoints (mock m e)) k = lookup (endpoints m) k" by (rule mock_other_keys)
  qed
qed


theorem winner_first_best_in_registry_order_witness:
  "findMatchingEndpoint defaultConfig
     (endpoints (mock (mock newMocker idEndpoint) meEndpoint))
     ''GET'' (getRequest ''/users/me'' []) = Inr (Some (meEndpoint\<lparr>priority := Some 0\<rparr>))
   \<and> outranks (meEndpoint\<lparr>priority := Some 0\<rparr>) (idEndpoint\<lparr>priority := Some 0\<rparr>)
   \<and> calculateSpecificity ''/users/me'' = 20 \<and> calculateSpecificity ''/users/:id'' = 11
   \<and> map fst (endpoints (mock (mock newMocker idEndpoint) meEndpoint))
       = [''GET:/users/:id'', ''GET:/users/me'']
   \<and> lookup (endpoints (mock (mock newMocker idEndpoint) meEndpoint)) ''GET:/users/:id''
       = Some [idEndpoint\<lparr>priority := Some 0\<rparr>]"
proof -
  let ?eps = "endpoints (mock (mock newMocker idEndpoint) meEndpoint)"
  let ?req = "getRequest ''/users/me'' []"
  let ?me = "meEndpoint\<lparr>priority := Some 0\<rparr>" and ?id = "idEndpoint\<lparr>priority := Some 0\<rparr>"
  have found: "findMatchingEndpoint defaultConfig ?eps ''GET'' ?req = Inr (Some ?me)"
    by (simp add: idEndpoint_def meEndpoint_def evaluation_rules)
  have app: "filter (\<lambda>e. matchesEndpoint defaultConfig e ''GET'' ?req = Inr True)
               (concat (map snd ?eps)) = [?id, ?me]"
    by (simp add: idEndpoint_def meEndpoint_def evaluation_rules)
  have ne: "?id \<noteq> ?me"
    by (simp add: idEndpoint_def meEndpoint_def staticEndpoint_def)
  note inst = winner_first_best_in_registry_order [OF found]
  note winner = inst [THEN conjunct2, THEN conjunct1, rule_format, OF refl, unfolded app]
  note spec = inst [THEN conjunct2, THEN conjunct2, THEN conjunct1, rule_format]
  note rest = inst [THEN conjunct2, THEN conjunct2, THEN conjunct2, THEN conjunct2,
                    THEN conjunct2, THEN conjunct2]
  note keys = rest [THEN conjunct1, rule_format]
  note others = rest [THEN conjunct2, THEN conjunct2, rule_format]
  from winner obtain pre post where
    dec: "[?id, ?me] = pre @ ?me # post"
    and pre: "\<forall>c \<in> set pre. outranks ?me c"
    by blast
  from dec ne have "pre = [?id]"
    by (auto simp: Cons_eq_append_conv)
  with pre have 1: "outranks ?me ?id" by simp
  have 2: "calculateSpecificity ''/users/me'' = 20"
    by (simp add: spec [of "''/users/me''"] filterBoolean_def normalizePath_def
          trimTrailingSlash_def startsWith_def endsWith_def)
  have 3: "calculateSpecificity ''/users/:id'' = 11"
    by (simp add: spec [of "''/users/:id''"] filterBoolean_def normalizePath_def
          trimTrailingSlash_def startsWith_def endsWith_def)
  have first: "endpoints (mock newMocker idEndpoint) = [(''GET:/users/:id'', [?id])]"
    by (simp add: idEndpoint_def evaluation_rules)
  have key: "createEndpointKey (httpMethod meEndpoint) (path meEndpoint) = ''GET:/users/me''"
    by (simp add: meEndpoint_def staticEndpoint_def createEndpointKey_def)
  have 4: "map fst ?eps = [''GET:/users/:id'', ''GET:/users/me'']"
    by (simp add: keys [of "mock newMocker idEndpoint" meEndpoint] first key)
  have "''GET:/users/:id'' \<noteq> createEndpointKey (httpMethod meEndpoint) (path meEndpoint)"
    by (simp add: key)
  from others [OF this, of "mock newMocker idEndpoint"]
  have 5: "lookup ?eps ''GET:/users/:id'' = Some [?id]"
    by (simp add: first)
  from found 1 2 3 4 5 show ?thesis by (intro conjI)
qed

section \<open>Path patterns\<close>

lemma joinPath_simps [simp]:
  "joinPath [] = []" "joinPath (s # segs) = CHR ''/'' # s @ joinPath segs"
  by (simp_all add: joinPath_def)

lemma slash_not_plain: "\<not> plainNameChar CHR ''/''"
  by (simp add: plainNameChar_def nameChar_def)

lemma joinPath_start: "joinPath segs = [] \<or> hd (joinPath segs) = CHR ''/''"
  by (cases segs) simp_all

lemma atomsOf_literal: "CHR '':'' \<notin> set s \<Longrightarrow> atomsOf (s @ t) = map Lit s @ atomsOf t"
  by (induction s) auto

lemma atomsOf_param:
  assumes "name \<noteq> []" "list_all plainNameChar name" "t = [] \<or> \<not> plainNameChar (hd t)"
  shows "atomsOf (CHR '':'' # name @ t) = Segment # atomsOf t"
proof -
  have all: "\<And>x. x \<in> set name \<Longrightarrow> plainNameChar x"
    using assms(2) by (simp add: list_all_iff)
  have tw: "takeWhile plainNameChar (name @ t) = name @ takeWhile plainNameChar t"
    using all by (simp add: takeWhile_append2)
  have "dropWhile plainNameChar t = t"
    using assms(3) by (cases t) auto
  hence dw: "dropWhile plainNameChar (name @ t) = t"
    using all by (simp add: dropWhile_append2)
  show ?thesis using assms(1) by (simp add: tw dw)
qed

lemma atomsOf_joinPath:
  "\<forall>s \<in> set psegs. literalSegment s \<or> paramSegment s \<Longrightarrow>
   atomsOf (joinPath psegs) =
     concat (map (\<lambda>s. Lit CHR ''/'' # (if paramSegment s then [Segment] else map Lit s)) psegs)"
proof (induction psegs)
  case Nil
  show ?case by simp
next
  case (Cons s psegs)
  have rest: "joinPath psegs = [] \<or> \<not> plainNameChar (hd (joinPath psegs))"
    using joinPath_start [of psegs] slash_not_plain by auto
  show ?case
  proof (cases "paramSegment s")
    case True
    then obtain name where s: "s = CHR '':'' # name" "name \<noteq> []" "list_all plainNameChar name"
      by (auto simp: paramSegment_def split: list.splits)
    from atomsOf_param [OF s(2,3) rest] Cons True show ?thesis
      by (simp add: s(1))
  next
    case False
    with Cons.prems have "CHR '':'' \<notin> set s" by (auto simp: literalSegment_def)
    from atomsOf_literal [OF this] Cons False show ?thesis by simp
  qed
qed

lemma regexTest_literal:
  "regexTest (map Lit s @ as) r \<longleftrightarrow> (\<exists>r'. r = s @ r' \<and> regexTest as r')"
proof (induction s arbitrary: r)
  case Nil
  show ?case by simp
next
  case (Cons c s)
  show ?case by (cases r) (auto simp: Cons)
qed

lemma regexTest_segment:
  "regexTest (Segment # as) r \<longleftrightarrow>
     (\<exists>u r'. r = u @ r' \<and> u \<noteq> [] \<and> CHR ''/'' \<notin> set u \<and> regexTest as r')"
proof (induction r)
  case Nil
  show ?case by simp
next
  case (Cons d r)
  show ?case
  proof
    assume "regexTest (Segment # as) (d # r)"
    hence d: "d \<noteq> CHR ''/''" and alt: "regexTest as r \<or> regexTest (Segment # as) r" by auto
    from alt show "\<exists>u r'. d # r = u @ r' \<and> u \<noteq> [] \<and> CHR ''/'' \<notin> set u \<and> regexTest as r'"
    proof
      assume "regexTest as r"
      with d show ?thesis by (intro exI [of _ "[d]"] exI [of _ r]) simp
    next
      assume "regexTest (Segment # as) r"
      with Cons obtain u r' where "r = u @ r'" "u \<noteq> []" "CHR ''/'' \<notin> set u" "regexTest as r'"
        by blast
      with d show ?thesis by (intro exI [of _ "d # u"] exI [of _ r']) simp
    qed
  next
    assume "\<exists>u r'. d # r = u @ r' \<and> u \<noteq> [] \<and> CHR ''/'' \<notin> set u \<and> regexTest as r'"
    then obtain u r' where u: "d # r = u @ r'" "u \<noteq> []" "CHR ''/'' \<notin> set u" "regexTest as r'"
      by blast
    then obtain u' where u': "u = d # u'" "r = u' @ r'"
      by (cases u) auto
    show "regexTest (Segment # as) (d # r)"
    proof (cases "u' = []")
      case True
      with u u' show ?thesis by auto
    next
      case False
      with u u' have "regexTest (Segment # as) r" using Cons by auto
      with u u' show ?thesis by auto
    qed
  qed
qed

lemma regexTest_segments:
  "regexTest
     (concat (map (\<lambda>s. Lit CHR ''/'' # (if paramSegment s then [Segment] else map Lit s)) psegs)) r
   \<longleftrightarrow> (\<exists>rsegs. r = joinPath rsegs \<and> list_all2 segmentMatches psegs rsegs)"
proof (induction psegs arbitrary: r)
  case Nil
  show ?case by auto
next
  case (Cons s psegs)
  let ?rest = "concat (map (\<lambda>s. Lit CHR ''/'' # (if paramSegment s then [Segment] else map Lit s)) psegs)"
  have IH: "regexTest ?rest r' \<longleftrightarrow>
              (\<exists>rsegs. r' = joinPath rsegs \<and> list_all2 segmentMatches psegs rsegs)" for r'
    by (rule Cons)
  have join: "(\<exists>u r'. r = CHR ''/'' # u @ r' \<and> segmentMatches s u \<and> regexTest ?rest r')
          \<longleftrightarrow> (\<exists>rsegs. r = joinPath rsegs \<and> list_all2 segmentMatches (s # psegs) rsegs)"
    (is "?L \<longleftrightarrow> ?R")
  proof
    assume ?L
    then obtain u r' rsegs' where "r = CHR ''/'' # u @ r'" "segmentMatches s u"
      "r' = joinPath rsegs'" "list_all2 segmentMatches psegs rsegs'"
      unfolding IH by blast
    hence "r = joinPath (u # rsegs') \<and> list_all2 segmentMatches (s # psegs) (u # rsegs')"
      by simp
    thus ?R by blast
  next
    assume ?R
    then obtain rsegs where r: "r = joinPath rsegs" "list_all2 segmentMatches (s # psegs) rsegs"
      by blast
    then obtain u rsegs' where "rsegs = u # rsegs'" "segmentMatches s u"
      "list_all2 segmentMatches psegs rsegs'"
      by (auto simp: list_all2_Cons1)
    with r have "r = CHR ''/'' # u @ joinPath rsegs' \<and> segmentMatches s u
                   \<and> regexTest ?rest (joinPath rsegs')"
      unfolding IH by auto
    thus ?L by blast
  qed
  show ?case
  proof (cases "paramSegment s")
    case True
    hence sm: "segmentMatches s u \<longleftrightarrow> u \<noteq> [] \<and> CHR ''/'' \<notin> set u" for u
      by (simp add: segmentMatches_def)
    have "regexTest (Lit CHR ''/'' # Segment # ?rest) r \<longleftrightarrow>
            (\<exists>u r'. r = CHR ''/'' # u @ r' \<and> segmentMatches s u \<and> regexTest ?rest r')"
      unfolding sm by (cases r) (auto simp: regexTest_segment)
    with join True show ?thesis by simp
  next
    case False
    hence sm: "segmentMatches s u \<longleftrightarrow> u = s" for u
      by (simp add: segmentMatches_def)
    have "regexTest (Lit CHR ''/'' # map Lit s @ ?rest) r \<longleftrightarrow>
            (\<exists>u r'. r = CHR ''/'' # u @ r' \<and> segmentMatches s u \<and> regexTest ?rest r')"
      unfolding sm by (cases r) (auto simp: regexTest_literal)
    with join False show ?thesis by simp
  qed
qed


lemma splitSlash_not_Nil: "splitSlash s \<noteq> []"
  by (induction s) (auto split: list.splits)

lemma splitSlash_append:
  "CHR ''/'' \<notin> set s \<Longrightarrow>
     splitSlash (s @ t) = (s @ hd (splitSlash t)) # tl (splitSlash t)"
proof (induction s)
  case Nil
  show ?case using splitSlash_not_Nil [of t] by simp
next
  case (Cons c s)
  thus ?case by auto
qed

lemma splitSlash_joinPath:
  "\<forall>s \<in> set segs. CHR ''/'' \<notin> set s \<Longrightarrow> splitSlash (joinPath segs) = [] # segs"
  by (induction segs) (simp_all add: splitSlash_append)

lemma parts_joinPath:
  "\<forall>s \<in> set segs. s \<noteq> [] \<and> CHR ''/'' \<notin> set s
     \<Longrightarrow> filterBoolean (splitSlash (joinPath segs)) = segs"
  by (simp add: splitSlash_joinPath filterBoolean_def filter_id_conv)

lemma startsWith_colon: "startsWith s '':'' \<longleftrightarrow> (\<exists>n. s = CHR '':'' # n)"
  by (cases s) (auto simp: startsWith_def)

lemma bindParams_other:
  "\<forall>s \<in> set ps. s \<noteq> CHR '':'' # n \<Longrightarrow> lookup (bindParams ps idx us acc) n = lookup acc n"
proof (induction ps arbitrary: idx acc)
  case Nil
  show ?case by simp
next
  case (Cons p ps)
  hence "startsWith p '':'' \<Longrightarrow> drop 1 p \<noteq> n"
    by (auto simp: startsWith_colon)
  with Cons show ?case by (auto simp: lookup_assignProp)
qed

text \<open>No segment binds the name \<open>__proto__\<close>: the assignment creates no property.\<close>

lemma bindParams_proto:
  "lookup acc ''__proto__'' = None
     \<Longrightarrow> lookup (bindParams ps idx us acc) ''__proto__'' = None"
proof (induction ps arbitrary: idx acc)
  case Nil
  thus ?case by simp
next
  case (Cons p ps)
  have "lookup (assignProp acc k v) ''__proto__'' = None" for k v
    using Cons.prems by (cases "k = ''__proto__''") (simp_all add: assignProp_def lookup_assign)
  with Cons show ?case by simp
qed

lemma bindParams_bound:
  assumes "i < length ps" and "startsWith (ps ! i) '':''"
      and "idx + i < length us" and "us ! (idx + i) \<noteq> []"
      and "\<forall>j. i < j \<and> j < length ps \<longrightarrow> ps ! j \<noteq> ps ! i"
      and "drop 1 (ps ! i) \<noteq> ''__proto__''"
  shows "lookup (bindParams ps idx us acc) (drop 1 (ps ! i)) = Some (us ! (idx + i))"
  using assms
proof (induction ps arbitrary: idx acc i)
  case Nil
  thus ?case by simp
next
  case (Cons p ps)
  show ?case
  proof (cases i)
    case 0
    from Cons.prems(2) 0 obtain n where p: "p = CHR '':'' # n"
      by (auto simp: startsWith_colon)
    have "\<forall>s \<in> set ps. s \<noteq> CHR '':'' # n"
    proof
      fix s assume "s \<in> set ps"
      then obtain k where "k < length ps" "ps ! k = s" by (auto simp: in_set_conv_nth)
      with Cons.prems(5) [rule_format, of "Suc k"] 0 p show "s \<noteq> CHR '':'' # n" by auto
    qed
    moreover from Cons.prems(6) 0 p have "n \<noteq> ''__proto__''" by simp
    ultimately show ?thesis
      using Cons.prems(3,4) 0 p by (simp add: bindParams_other lookup_assignProp startsWith_colon)
  next
    case (Suc i')
    have later: "\<forall>j. i' < j \<and> j < length ps \<longrightarrow> ps ! j \<noteq> ps ! i'"
    proof (intro allI impI)
      fix j assume "i' < j \<and> j < length ps"
      with Cons.prems(5) [rule_format, of "Suc j"] Suc show "ps ! j \<noteq> ps ! i'" by simp
    qed
    from Cons.prems(1-4) Suc have rest: "i' < length ps" "startsWith (ps ! i') '':''"
      "Suc idx + i' < length us" "us ! (Suc idx + i') \<noteq> []"
      by simp_all
    from Cons.prems(6) Suc have name: "drop 1 (ps ! i') \<noteq> ''__proto__''" by simp
    from Cons.IH [OF rest later name] Suc show ?thesis by simp
  qed
qed

lemma segment_shapes:
  assumes "\<forall>s \<in> set psegs. literalSegment s \<or> paramSegment s"
  shows "\<forall>s \<in> set psegs. s \<noteq> [] \<and> CHR ''/'' \<notin> set s"
proof
  fix s assume "s \<in> set psegs"
  with assms have "literalSegment s \<or> paramSegment s" by blast
  thus "s \<noteq> [] \<and> CHR ''/'' \<notin> set s"
    using slash_not_plain
    by (auto simp: literalSegment_def paramSegment_def list_all_iff split: list.splits)
qed

lemma matched_shapes:
  assumes "\<forall>s \<in> set psegs. literalSegment s \<or> paramSegment s"
      and "list_all2 segmentMatches psegs rsegs"
  shows "\<forall>s \<in> set rsegs. s \<noteq> [] \<and> CHR ''/'' \<notin> set s"
proof
  fix s assume "s \<in> set rsegs"
  then obtain k where k: "k < length rsegs" "rsegs ! k = s" by (auto simp: in_set_conv_nth)
  with assms(2) have m: "segmentMatches (psegs ! k) s" and "k < length psegs"
    by (auto simp: list_all2_conv_all_nth)
  hence "psegs ! k \<in> set psegs" by simp
  with segment_shapes [OF assms(1)] have "psegs ! k \<noteq> [] \<and> CHR ''/'' \<notin> set (psegs ! k)" by blast
  with m show "s \<noteq> [] \<and> CHR ''/'' \<notin> set s"
    by (auto simp: segmentMatches_def split: if_splits)
qed

text \<open>
  The parameter regular expression replaces a token wherever it stands, while
  \<open>extractParams\<close> binds only a segment that starts with a colon. The pattern
  \<open>/files/v:ver\<close> matches \<open>/files/v2\<close>, its token matching \<open>2\<close>, a part of a
  segment, and nothing is bound.
\<close>

theorem token_inside_segment_counterexample:
  "matchesPath defaultConfig ''/files/v:ver'' (getRequest ''/files/v2'' []) = Inr True
   \<and> extractParams defaultConfig ''/files/v:ver'' (getRequest ''/files/v2'' []) = []"
  by (simp add: evaluation_rules extractParams_def)

text \<open>
  A hyphen ends a token: \<open>:user-id\<close> is the token \<open>:user\<close> followed by the literal
  \<open>-id\<close>, while \<open>extractParams\<close> takes the whole segment as the name.
\<close>

lemma hyphenated_parameter_name:
  "matchesPath defaultConfig ''/users/:user-id'' (getRequest ''/users/5'' []) = Inr False
   \<and> matchesPath defaultConfig ''/users/:user-id'' (getRequest ''/users/5-id'' []) = Inr True
   \<and> extractParams defaultConfig ''/users/:user-id'' (getRequest ''/users/5-id'' [])
       = [(''user-id'', ''5-id'')]"
  by (simp add: evaluation_rules extractParams_def)

lemma partial_paths_do_not_match:
  "matchesPath defaultConfig ''/users/:id'' (getRequest ''/users/1/posts'' []) = Inr False
   \<and> matchesPath defaultConfig ''/users/:id'' (getRequest ''/users'' []) = Inr False
   \<and> matchesPath defaultConfig ''/users/:id'' (getRequest ''/v1/users/1'' []) = Inr False
   \<and> matchesPath defaultConfig ''users/:id/'' (getRequest ''/users/1/'' []) = Inr True"
  by (simp add: evaluation_rules)

text \<open>
  Claim C6, amended. Let the pattern, normalised (a leading slash ensured, one trailing
  slash removed), be a sequence of segments, each a literal segment or a parameter
  segment. Then the pattern matches exactly when the request path (base path stripped,
  normalised the same way) is a sequence of as many segments, equal to the pattern at the
  literal segments and non-empty at the parameter segments: the whole path, never a
  prefix or a part. On a match each parameter name other than \<open>__proto__\<close> is bound to
  the request segment at the index of its (last) parameter segment, and no other name is
  bound; the name \<open>__proto__\<close> is never bound. The pattern \<open>/\<close> matches the path \<open>/\<close>
  only.
\<close>

theorem segment_patterns_match_and_bind:
  "(trimTrailingSlash (normalizePath pattern) = joinPath psegs
      \<and> (\<forall>s \<in> set psegs. literalSegment s \<or> paramSegment s) \<longrightarrow>
      matchesPath cfg pattern req =
        Inr (\<exists>rsegs. trimTrailingSlash (getPathWithoutBase cfg req) = joinPath rsegs
               \<and> list_all2 segmentMatches psegs rsegs)
      \<and> (\<forall>rsegs i.
            trimTrailingSlash (getPathWithoutBase cfg req) = joinPath rsegs
            \<and> list_all2 segmentMatches psegs rsegs
            \<and> i < length psegs \<and> paramSegment (psegs ! i)
            \<and> (\<forall>j. i < j \<and> j < length psegs \<longrightarrow> psegs ! j \<noteq> psegs ! i)
            \<and> drop 1 (psegs ! i) \<noteq> ''__proto__''
            \<longrightarrow> lookup (extractParams cfg pattern req) (drop 1 (psegs ! i)) = Some (rsegs ! i))
      \<and> (\<forall>n. CHR '':'' # n \<notin> set psegs \<longrightarrow> lookup (extractParams cfg pattern req) n = None))
   \<and> lookup (extractParams cfg pattern req) ''__proto__'' = None
   \<and> (trimTrailingSlash (normalizePath pattern) = ''/'' \<longrightarrow>
        matchesPath cfg pattern req = Inr (trimTrailingSlash (getPathWithoutBase cfg req) = ''/''))"
proof (intro conjI impI allI)
  assume root: "trimTrailingSlash (normalizePath pattern) = ''/''"
  have "regexTest [Lit CHR ''/''] r \<longleftrightarrow> r = ''/''" for r
    by (cases r) auto
  thus "matchesPath cfg pattern req = Inr (trimTrailingSlash (getPathWithoutBase cfg req) = ''/'')"
    by (simp add: matchesPath_atomsOf root)
next
  assume a: "trimTrailingSlash (normalizePath pattern) = joinPath psegs
      \<and> (\<forall>s \<in> set psegs. literalSegment s \<or> paramSegment s)"
  hence wf: "\<forall>s \<in> set psegs. literalSegment s \<or> paramSegment s" by (rule conjunct2)
  show "matchesPath cfg pattern req =
        Inr (\<exists>rsegs. trimTrailingSlash (getPathWithoutBase cfg req) = joinPath rsegs
               \<and> list_all2 segmentMatches psegs rsegs)"
    using a by (simp add: matchesPath_atomsOf atomsOf_joinPath [OF wf] regexTest_segments)
next
  fix n
  assume a: "trimTrailingSlash (normalizePath pattern) = joinPath psegs
      \<and> (\<forall>s \<in> set psegs. literalSegment s \<or> paramSegment s)"
  assume n: "CHR '':'' # n \<notin> set psegs"
  from a have parts: "filterBoolean (splitSlash (trimTrailingSlash (normalizePath pattern))) = psegs"
    using parts_joinPath [OF segment_shapes] by simp
  from n have "\<forall>s \<in> set psegs. s \<noteq> CHR '':'' # n" by blast
  from bindParams_other [OF this] show "lookup (extractParams cfg pattern req) n = None"
    by (simp add: extractParams_def parts)
next
  fix rsegs i
  assume a: "trimTrailingSlash (normalizePath pattern) = joinPath psegs
      \<and> (\<forall>s \<in> set psegs. literalSegment s \<or> paramSegment s)"
  assume b: "trimTrailingSlash (getPathWithoutBase cfg req) = joinPath rsegs
            \<and> list_all2 segmentMatches psegs rsegs
            \<and> i < length psegs \<and> paramSegment (psegs ! i)
            \<and> (\<forall>j. i < j \<and> j < length psegs \<longrightarrow> psegs ! j \<noteq> psegs ! i)
            \<and> drop 1 (psegs ! i) \<noteq> ''__proto__''"
  from a have wf: "\<forall>s \<in> set psegs. literalSegment s \<or> paramSegment s" by (rule conjunct2)
  from a have parts: "filterBoolean (splitSlash (trimTrailingSlash (normalizePath pattern))) = psegs"
    using parts_joinPath [OF segment_shapes] by simp
  note b1 = b [THEN conjunct1]
  note m = b [THEN conjunct2, THEN conjunct1]
  note i = b [THEN conjunct2, THEN conjunct2, THEN conjunct1]
  note shape = b [THEN conjunct2, THEN conjunct2, THEN conjunct2, THEN conjunct1]
  note later = b [THEN conjunct2, THEN conjunct2, THEN conjunct2, THEN conjunct2, THEN conjunct1]
  note name = b [THEN conjunct2, THEN conjunct2, THEN conjunct2, THEN conjunct2, THEN conjunct2]
  from b1 have urlParts: "filterBoolean (splitSlash (trimTrailingSlash (getPathWithoutBase cfg req)))
                           = rsegs"
    using parts_joinPath [OF matched_shapes [OF wf m]] by simp
  from m have len: "length rsegs = length psegs" by (simp add: list_all2_lengthD)
  from shape have starts: "startsWith (psegs ! i) '':''"
    by (auto simp: paramSegment_def startsWith_colon split: list.splits)
  from i len have inside: "0 + i < length rsegs" by simp
  from i len matched_shapes [OF wf m] have filled: "rsegs ! (0 + i) \<noteq> []" by simp
  from i starts inside filled later name
  have "lookup (bindParams psegs 0 rsegs []) (drop 1 (psegs ! i)) = Some (rsegs ! (0 + i))"
    by (rule bindParams_bound)
  thus "lookup (extractParams cfg pattern req) (drop 1 (psegs ! i)) = Some (rsegs ! i)"
    by (simp add: extractParams_def parts urlParts)
next
  have "lookup (bindParams ps 0 us []) ''__proto__'' = None" for ps us
    by (rule bindParams_proto) simp
  thus "lookup (extractParams cfg pattern req) ''__proto__'' = None"
    by (simp add: extractParams_def Let_def)
qed

theorem segment_patterns_match_and_bind_witness:
  "matchesPath defaultConfig ''/users/:userId/posts/:postId'' (getRequest ''/users/1/posts/5'' [])
     = Inr True
   \<and> lookup (extractParams defaultConfig ''/users/:userId/posts/:postId''
               (getRequest ''/users/1/posts/5'' [])) ''userId'' = Some ''1''
   \<and> lookup (extractParams defaultConfig ''/users/:userId/posts/:postId''
               (getRequest ''/users/1/posts/5'' [])) ''postId'' = Some ''5''
   \<and> lookup (extractParams defaultConfig ''/users/:userId/posts/:postId''
               (getRequest ''/users/1/posts/5'' [])) ''id'' = None"
proof -
  let ?psegs = "[''users'', '':userId'', ''posts'', '':postId'']"
  let ?rsegs = "[''users'', ''1'', ''posts'', ''5'']"
  let ?pattern = "''/users/:userId/posts/:postId''"
  let ?req = "getRequest ''/users/1/posts/5'' []"
  have h1: "trimTrailingSlash (normalizePath ?pattern) = joinPath ?psegs"
    by (simp add: normalizePath_def trimTrailingSlash_def startsWith_def endsWith_def)
  have h2: "\<forall>s \<in> set ?psegs. literalSegment s \<or> paramSegment s"
    by (simp add: literalSegment_def paramSegment_def plainNameChar_def nameChar_def)
  have h3: "trimTrailingSlash (getPathWithoutBase defaultConfig ?req) = joinPath ?rsegs"
    by (simp add: evaluation_rules)
  have h4: "list_all2 segmentMatches ?psegs ?rsegs"
    by (simp add: segmentMatches_def paramSegment_def plainNameChar_def nameChar_def)
  have h5: "\<forall>j. 1 < j \<and> j < length ?psegs \<longrightarrow> ?psegs ! j \<noteq> ?psegs ! 1"
           "\<forall>j. 3 < j \<and> j < length ?psegs \<longrightarrow> ?psegs ! j \<noteq> ?psegs ! 3"
    by (auto simp: nth_Cons' )
  have h6: "paramSegment (?psegs ! 1)" "paramSegment (?psegs ! 3)"
    by (simp_all add: paramSegment_def plainNameChar_def nameChar_def)
  have h7: "CHR '':'' # ''id'' \<notin> set ?psegs" by simp
  note inst = segment_patterns_match_and_bind
                [of ?pattern ?psegs defaultConfig ?req, THEN conjunct1, rule_format, OF conjI [OF h1 h2]]
  have ex: "\<exists>rsegs. trimTrailingSlash (getPathWithoutBase defaultConfig ?req) = joinPath rsegs
               \<and> list_all2 segmentMatches ?psegs rsegs"
    using h3 h4 by blast
  from inst have "matchesPath defaultConfig ?pattern ?req =
        Inr (\<exists>rsegs. trimTrailingSlash (getPathWithoutBase defaultConfig ?req) = joinPath rsegs
               \<and> list_all2 segmentMatches ?psegs rsegs)"
    by (rule conjunct1)
  with ex have 1: "matchesPath defaultConfig ?pattern ?req = Inr True" by simp
  have h8: "drop 1 (?psegs ! 1) \<noteq> ''__proto__''" "drop 1 (?psegs ! 3) \<noteq> ''__proto__''"
    by simp_all
  from h3 h4 h5(1) h6(1) h8(1)
  have "lookup (extractParams defaultConfig ?pattern ?req) (drop 1 (?psegs ! 1)) = Some (?rsegs ! 1)"
    by (intro inst [THEN conjunct2, THEN conjunct1, rule_format]) simp
  hence 2: "lookup (extractParams defaultConfig ?pattern ?req) ''userId'' = Some ''1''" by simp
  from h3 h4 h5(2) h6(2) h8(2)
  have "lookup (extractParams defaultConfig ?pattern ?req) (drop 1 (?psegs ! 3)) = Some (?rsegs ! 3)"
    by (intro inst [THEN conjunct2, THEN conjunct1, rule_format]) simp
  hence 3: "lookup (extractParams defaultConfig ?pattern ?req) ''postId'' = Some ''5''" by simp
  from h7 have 4: "lookup (extractParams defaultConfig ?pattern ?req) ''id'' = None"
    by (rule inst [THEN conjunct2, THEN conjunct2, rule_format])
  from 1 2 3 4 show ?thesis by (intro conjI)
qed


end
